theory Spec2Isabelle
  imports Main "HOL-Library.AList" "HOL-Library.Word"
begin

unbundle bit_operations_syntax


section \<open>Session cache (app/services/session\_manager.py)\<close>

subsection \<open>Values, files and directories\<close>

text \<open>
  A naive UTC \<^verbatim>\<open>datetime\<close> is counted in microseconds since 1970-01-01T00:00:00, the
  resolution of the Python type, so that the difference of two of them is the exact
  \<^verbatim>\<open>timedelta\<close>.
\<close>

type_synonym datetime = int

text \<open>
  \<^verbatim>\<open>timedelta(days=n)\<close> in microseconds; Python raises OverflowError (here \<open>None\<close>) when
  the magnitude of \<open>n\<close> exceeds 999999999. \<open>expired now created_at n\<close> is the test
  \<^verbatim>\<open>now - created_at > timedelta(days=n)\<close> of lines 68 and 107.
\<close>

definition timedelta_days :: "int \<Rightarrow> int option" where
  "timedelta_days n =
     (if - 999999999 \<le> n \<and> n \<le> 999999999 then Some (n * 86400000000) else None)"

definition expired :: "datetime \<Rightarrow> datetime \<Rightarrow> int \<Rightarrow> bool option" where
  "expired now created_at n =
     (case timedelta_days n of None \<Rightarrow> None | Some d \<Rightarrow> Some (now - created_at > d))"

text \<open>\<^verbatim>\<open>datetime(2000, 1, 1)\<close>: 10957 days after the epoch.\<close>

definition default_created_at :: datetime where
  "default_created_at = 946684800000000"

text \<open>
  The values a session dictionary holds. A dictionary is an association list in insertion
  order with \<^verbatim>\<open>str\<close> keys. A \<^verbatim>\<open>str\<close> is either \<open>PIso t\<close>, the ISO-8601 text of the
  datetime \<open>t\<close> (what \<^verbatim>\<open>t.isoformat()\<close> returns and \<^verbatim>\<open>datetime.fromisoformat\<close> reads
  back), or \<open>PStr s\<close>, any other text, on which \<^verbatim>\<open>fromisoformat\<close> raises ValueError.
  \<open>PObject\<close> stands for every Python object that \<^verbatim>\<open>json.dump\<close> refuses with TypeError
  (a set, bytes, a class instance).
\<close>

datatype pyval =
    PNone
  | PBool bool
  | PInt int
  | PStr string
  | PIso datetime
  | PList "pyval list"
  | PDict "(string \<times> pyval) list"
  | PObject

type_synonym pydict = "(string \<times> pyval) list"

fun serializable :: "pyval \<Rightarrow> bool" where
  "serializable PObject = False"
| "serializable (PList xs) = (\<forall>x \<in> set xs. serializable x)"
| "serializable (PDict kvs) = (\<forall>v \<in> snd ` set kvs. serializable v)"
| "serializable _ = True"

text \<open>
  A file holds either the text \<^verbatim>\<open>json.dump\<close> wrote for a value, which \<^verbatim>\<open>json.load\<close> reads
  back as that value, or text that \<^verbatim>\<open>json.load\<close> rejects with JSONDecodeError: the empty
  file left by \<^verbatim>\<open>open(path, 'w')\<close> and every proper prefix of a JSON object are such.
\<close>

datatype file_content = JsonText pyval | Unparsable

fun json_load :: "file_content \<Rightarrow> pyval option" where
  "json_load (JsonText v) = Some v"
| "json_load Unparsable = None"

text \<open>
  The base directory is modelled by its sub-directories (regular files directly under it
  are skipped by the only operation that lists it), each sub-directory by its files, both
  in listing order. A path is the pair of a directory name and a file name. Creating
  and listing directories, copying and removing files are taken to succeed; the write of a
  session file and the copy of a backup can fail, see \<open>fault\<close>.
\<close>

type_synonym directory = "(string \<times> file_content) list"
type_synonym filesystem = "(string \<times> directory) list"
type_synonym path = "string \<times> string"

definition path_exists :: "path \<Rightarrow> filesystem \<Rightarrow> bool" where
  "path_exists p fs = (case map_of fs (fst p) of None \<Rightarrow> False
                       | Some d \<Rightarrow> map_of d (snd p) \<noteq> None)"

definition read_file :: "path \<Rightarrow> filesystem \<Rightarrow> file_content option" where
  "read_file p fs = (case map_of fs (fst p) of None \<Rightarrow> None
                     | Some d \<Rightarrow> map_of d (snd p))"

definition makedirs :: "string \<Rightarrow> filesystem \<Rightarrow> filesystem" where
  "makedirs d fs = (if map_of fs d = None then fs @ [(d, [])] else fs)"

definition write_file :: "path \<Rightarrow> file_content \<Rightarrow> filesystem \<Rightarrow> filesystem" where
  "write_file p c fs = (case map_of fs (fst p) of None \<Rightarrow> fs
                        | Some d \<Rightarrow> AList.update (fst p) (AList.update (snd p) c d) fs)"

definition remove_file :: "path \<Rightarrow> filesystem \<Rightarrow> filesystem" where
  "remove_file p fs = (case map_of fs (fst p) of None \<Rightarrow> fs
                        | Some d \<Rightarrow> AList.update (fst p) (AList.delete (snd p) d) fs)"

subsection \<open>Paths\<close>

text \<open>Python's \<^verbatim>\<open>str\<close> of an \<^verbatim>\<open>int\<close>: decimal digits, a minus sign when negative.\<close>

definition digit_char :: "nat \<Rightarrow> char" where
  "digit_char n = ''0123456789'' ! (n mod 10)"

fun str_nat :: "nat \<Rightarrow> string" where
  "str_nat n = (if n < 10 then [digit_char n] else str_nat (n div 10) @ [digit_char n])"

definition str_int :: "int \<Rightarrow> string" where
  "str_int i = (if i < 0 then CHR ''-'' # str_nat (nat (- i)) else str_nat (nat i))"

definition get_user_session_dir :: "int \<Rightarrow> string" where
  "get_user_session_dir user_id = str_int user_id"

definition get_store_session_path :: "int \<Rightarrow> int \<Rightarrow> path" where
  "get_store_session_path user_id store_id =
     (get_user_session_dir user_id, ''store_'' @ str_int store_id @ ''_session.json'')"

declare str_nat.simps [simp del]

subsection \<open>Operations\<close>

text \<open>
  The one input/output operation of a call that fails, if any: \<open>OpenFails\<close> is
  \<^verbatim>\<open>open(session_path, 'w')\<close> raising (the file is not touched), \<open>DumpFails\<close> is
  \<^verbatim>\<open>json.dump\<close> raising after the file was opened, hence truncated, and \<open>CopyFails\<close> is
  \<^verbatim>\<open>shutil.copy2\<close> raising before the backup is written.
\<close>

datatype fault = NoFault | OpenFails | DumpFails | CopyFails

text \<open>
  \<^verbatim>\<open>save_session\<close>, lines 29 to 52. \<open>now\<close> is the reading of \<^verbatim>\<open>datetime.utcnow()\<close>. The
  result is the returned flag, the caller's dictionary as the call leaves it (line 38
  assigns into it) and the file system.
\<close>

definition metadata :: "datetime \<Rightarrow> int \<Rightarrow> int \<Rightarrow> pyval" where
  "metadata now user_id store_id =
     PDict [(''created_at'', PIso now), (''user_id'', PInt user_id), (''store_id'', PInt store_id)]"

definition save_session ::
  "datetime \<Rightarrow> fault \<Rightarrow> int \<Rightarrow> int \<Rightarrow> pydict \<Rightarrow> filesystem \<Rightarrow> bool \<times> pydict \<times> filesystem" where
  "save_session now flt user_id store_id session_data fs =
     (let fs1 = makedirs (get_user_session_dir user_id) fs;
          session_path = get_store_session_path user_id store_id;
          session_data' = AList.update ''_metadata'' (metadata now user_id store_id) session_data
      in if flt = OpenFails then (False, session_data', fs1)
         else if flt = DumpFails \<or> \<not> serializable (PDict session_data')
           then (False, session_data', write_file session_path Unparsable fs1)
         else (True, session_data', write_file session_path (JsonText (PDict session_data')) fs1))"

text \<open>
  Lines 61 to 66, which \<^verbatim>\<open>load_session\<close> and \<^verbatim>\<open>cleanup_expired_sessions\<close> share: parse the
  file, read \<^verbatim>\<open>_metadata\<close> (default \<^verbatim>\<open>{}\<close>) and its \<^verbatim>\<open>created_at\<close> (default the year
  2000). \<open>None\<close> is any exception: JSONDecodeError, AttributeError when the document or
  the metadata has no \<^verbatim>\<open>get\<close>, TypeError or ValueError from \<^verbatim>\<open>fromisoformat\<close>.
\<close>

fun fromisoformat :: "pyval \<Rightarrow> datetime option" where
  "fromisoformat (PIso t) = Some t"
| "fromisoformat _ = None"

fun created_at_of :: "pyval \<Rightarrow> datetime option" where
  "created_at_of (PDict session_data) =
     (case (case map_of session_data ''_metadata'' of None \<Rightarrow> PDict [] | Some m \<Rightarrow> m) of
        PDict md \<Rightarrow> fromisoformat (case map_of md ''created_at'' of
                                      None \<Rightarrow> PIso default_created_at | Some c \<Rightarrow> c)
      | _ \<Rightarrow> None)"
| "created_at_of _ = None"

definition parse_session :: "file_content \<Rightarrow> (pyval \<times> datetime) option" where
  "parse_session c =
     (case json_load c of None \<Rightarrow> None
      | Some session_data \<Rightarrow>
          (case created_at_of session_data of None \<Rightarrow> None
           | Some created_at \<Rightarrow> Some (session_data, created_at)))"

text \<open>\<^verbatim>\<open>delete_session\<close>, lines 79 to 89.\<close>

definition delete_session :: "int \<Rightarrow> int \<Rightarrow> filesystem \<Rightarrow> bool \<times> filesystem" where
  "delete_session user_id store_id fs =
     (let session_path = get_store_session_path user_id store_id
      in if path_exists session_path fs then (True, remove_file session_path fs) else (True, fs))"

text \<open>\<^verbatim>\<open>load_session\<close>, lines 54 to 77: the returned document, if any, and the file system.\<close>

definition load_session ::
  "datetime \<Rightarrow> int \<Rightarrow> int \<Rightarrow> filesystem \<Rightarrow> pyval option \<times> filesystem" where
  "load_session now user_id store_id fs =
     (let session_path = get_store_session_path user_id store_id
      in case read_file session_path fs of
           None \<Rightarrow> (None, fs)
         | Some c \<Rightarrow>
             (case parse_session c of
                None \<Rightarrow> (None, fs)
              | Some (session_data, created_at) \<Rightarrow>
                  (case expired now created_at 7 of
                     None \<Rightarrow> (None, fs)
                   | Some True \<Rightarrow> (None, snd (delete_session user_id store_id fs))
                   | Some False \<Rightarrow> (Some session_data, fs))))"

text \<open>
  \<^verbatim>\<open>rotate_session\<close>, lines 126 to 149. The handler of line 144 is reached only when the
  copy raises: \<^verbatim>\<open>save_session\<close> catches its own exceptions and returns \<^verbatim>\<open>False\<close>.
\<close>

definition backup_of :: "path \<Rightarrow> path" where
  "backup_of p = (fst p, snd p @ ''.bak'')"

definition move_file :: "path \<Rightarrow> path \<Rightarrow> filesystem \<Rightarrow> filesystem" where
  "move_file src dst fs =
     (case read_file src fs of None \<Rightarrow> fs
      | Some c \<Rightarrow> remove_file src (write_file dst c fs))"

definition rotate_session ::
  "datetime \<Rightarrow> fault \<Rightarrow> int \<Rightarrow> int \<Rightarrow> pydict \<Rightarrow> filesystem \<Rightarrow> bool \<times> pydict \<times> filesystem" where
  "rotate_session now flt user_id store_id new_session_data fs =
     (let session_path = get_store_session_path user_id store_id;
          backup_path = backup_of session_path
      in if path_exists session_path fs \<and> flt = CopyFails
         then (False, new_session_data,
               if path_exists backup_path fs then move_file backup_path session_path fs else fs)
         else
           (let fs1 = (case read_file session_path fs of None \<Rightarrow> fs
                       | Some c \<Rightarrow> write_file backup_path c fs);
                (success, data', fs2) = save_session now flt user_id store_id new_session_data fs1
            in (success, data',
                if success \<and> path_exists backup_path fs2 then remove_file backup_path fs2 else fs2)))"

text \<open>
  \<^verbatim>\<open>cleanup_expired_sessions\<close>, lines 91 to 124. The pattern \<^verbatim>\<open>store_*_session.json\<close> matches a
  name made of \<^verbatim>\<open>store_\<close>, any text and \<^verbatim>\<open>_session.json\<close>. \<open>record_expired\<close> is the body
  of the \<^verbatim>\<open>try\<close> of lines 101 to 107: \<open>False\<close> when any of its steps raises, which the
  handler of line 111 answers by going on to the next file.
\<close>

definition glob_match :: "string \<Rightarrow> bool" where
  "glob_match name \<longleftrightarrow>
     19 \<le> length name \<and> take 6 name = ''store_'' \<and>
     drop (length name - 13) name = ''_session.json''"

definition record_expired :: "datetime \<Rightarrow> int \<Rightarrow> file_content \<Rightarrow> bool" where
  "record_expired now max_age_days c =
     (case parse_session c of None \<Rightarrow> False
      | Some (session_data, created_at) \<Rightarrow> expired now created_at max_age_days = Some True)"

text \<open>
  The inner loop runs over the names the pattern matched when the directory was listed,
  the outer loop over the names listed in the base directory. \<open>clock d name\<close> is the
  reading of \<^verbatim>\<open>datetime.utcnow()\<close> at line 107 for the file \<open>name\<close> of the directory \<open>d\<close>:
  the clock is read once for each file.
\<close>

fun cleanup_files ::
  "(string \<Rightarrow> datetime) \<Rightarrow> int \<Rightarrow> string list \<Rightarrow> directory \<times> nat \<Rightarrow> directory \<times> nat" where
  "cleanup_files clock max_age_days [] st = st"
| "cleanup_files clock max_age_days (name # names) (dir, cleaned_count) =
     cleanup_files clock max_age_days names
       (case map_of dir name of
          None \<Rightarrow> (dir, cleaned_count)
        | Some c \<Rightarrow>
            if record_expired (clock name) max_age_days c
            then (AList.delete name dir, cleaned_count + 1)
            else (dir, cleaned_count))"

fun cleanup_dirs ::
  "(string \<Rightarrow> string \<Rightarrow> datetime) \<Rightarrow> int \<Rightarrow> string list \<Rightarrow> filesystem \<times> nat \<Rightarrow> filesystem \<times> nat" where
  "cleanup_dirs clock max_age_days [] st = st"
| "cleanup_dirs clock max_age_days (d # ds) (fs, cleaned_count) =
     cleanup_dirs clock max_age_days ds
       (case map_of fs d of
          None \<Rightarrow> (fs, cleaned_count)
        | Some dir \<Rightarrow>
            (let r = cleanup_files (clock d) max_age_days
                       (filter glob_match (map fst dir)) (dir, cleaned_count)
             in (if fst r = [] then AList.delete d fs else AList.update d (fst r) fs, snd r)))"

definition cleanup_expired_sessions ::
  "(string \<Rightarrow> string \<Rightarrow> datetime) \<Rightarrow> int \<Rightarrow> filesystem \<Rightarrow> nat \<times> filesystem" where
  "cleanup_expired_sessions clock max_age_days fs =
     (let r = cleanup_dirs clock max_age_days (map fst fs) (fs, 0) in (snd r, fst r))"

text \<open>
  The claim's words: the age of a record, counted from its \<^verbatim>\<open>created_at\<close> to the reading
  of the clock, exceeds \<open>max_age_days\<close> days. A file that does not parse has no age.
\<close>

definition age_exceeds :: "datetime \<Rightarrow> int \<Rightarrow> file_content \<Rightarrow> bool" where
  "age_exceeds now max_age_days c =
     (case parse_session c of None \<Rightarrow> False
      | Some (session_data, created_at) \<Rightarrow> now - created_at > max_age_days * 86400000000)"

text \<open>
  A file system has no two directories and no two files of a directory under one name.
  \<open>files_total\<close> counts its files.
\<close>

definition wf_fs :: "filesystem \<Rightarrow> bool" where
  "wf_fs fs \<longleftrightarrow> distinct (map fst fs) \<and> (\<forall>dir \<in> snd ` set fs. distinct (map fst dir))"

definition files_total :: "filesystem \<Rightarrow> nat" where
  "files_total fs = sum_list (map (\<lambda>e. length (snd e)) fs)"

subsection \<open>A stored record, for the examples\<close>

definition example_record :: "datetime \<Rightarrow> pyval" where
  "example_record t = PDict [(''cookies'', PList [PStr ''sid=abc'']), (''_metadata'', metadata t 1 2)]"

definition example_fs :: filesystem where
  "example_fs = [(''1'', [(''store_2_session.json'', JsonText (example_record 0))])]"

definition example_cache :: filesystem where
  "example_cache =
     [(''1'', [(''store_2_session.json'', JsonText (example_record 0)),
               (''store_3_session.json'', JsonText (example_record 100000000000))]),
      (''2'', [(''store_2_session.json'', JsonText (example_record 0))]),
      (''3'', [(''store_2_session.json'', Unparsable)])]"

section \<open>Browser automation (app/services/coupon\_service.py, store\_discovery.py)\<close>

subsection \<open>The page as a script of replies\<close>

text \<open>
  The services drive a page they do not control. A run is modelled as a function of the
  replies the page gives to the calls made on it, in the order the code makes them, that
  returns the result together with the trace of what the run did: the lines it logged,
  the queries it sent, what it clicked and filled in, and its waits. Every behaviour of a
  page, deterministic or not, is one such script, since the calls a run makes are fixed by
  the replies it got before.

  A call either returns or raises, \<open>Raises msg\<close> carrying \<^verbatim>\<open>str(e)\<close>. A reply of a query is
  \<open>None\<close> when the response or the node asked for is falsy. \<open>Fill t v\<close> and \<open>Click t\<close>
  record the call of \<^verbatim>\<open>fill(v)\<close> and \<^verbatim>\<open>click()\<close> on the element \<open>t\<close>, whether or not it then
  raises; \<open>WaitReady n\<close> is \<^verbatim>\<open>wait_for_page_ready_state()\<close> followed by the settle delay of
  \<open>n\<close> ms, \<open>Timeout n\<close> is \<^verbatim>\<open>wait_for_timeout(n)\<close>; waits are taken not to raise.
\<close>

datatype level = DEBUG | INFO | WARNING | ERROR

datatype target =
    HeaderSignIn | WelcomeSignIn | EmailBox | PasswordOption | PasswordBox | SubmitButton
  | ClipButton string | LoadMoreButton

datatype query =
    STORE_INFO_QUERY | INITIAL_MODAL_QUERY | LOGIN_OPTIONS_MODAL_QUERY | PASSWORD_MODAL_QUERY
  | COUPON_NAV_QUERY | COUPON_PAGE_QUERY

datatype event =
    Log level string
  | Query query
  | Click target
  | Fill target "string option"
  | WaitReady nat
  | Timeout nat
  | Goto string

datatype 'a reply = Raises string | Returns 'a

text \<open>
  An element the page returned: whether \<^verbatim>\<open>click()\<close> and \<^verbatim>\<open>fill()\<close> on it raise, and what
  \<^verbatim>\<open>text_content()\<close> and \<^verbatim>\<open>get_attribute('href')\<close> give.
\<close>

record element =
  click_error :: "string option"
  fill_error :: "string option"
  text_content :: "string option reply"
  href :: "string option reply"

record header_node =
  title :: "element option"
  sign_in_btn :: "element option"

record store_info =
  header :: "header_node option"

record welcome_modal =
  welcome_sign_in_btn :: "element option"

record login_modal =
  email_box :: "element option"
  password_btn :: "element option"

record password_modal =
  password_box :: "element option"
  modal_sign_in_btn :: "element option"

text \<open>\<^verbatim>\<open>StoreCredentials\<close> and \<^verbatim>\<open>StoreConfig\<close> of app/schemas/store.py.\<close>

record store_credentials =
  username :: "string option"
  email :: "string option"
  password :: string

record store_config =
  config_id :: "int option"
  name :: string
  base_url :: string
  login_url :: string
  credentials :: "store_credentials option"

type_synonym outcome = "bool \<times> event list"

definition prepend :: "event list \<Rightarrow> outcome \<Rightarrow> outcome" where
  "prepend t r = (fst r, t @ snd r)"

definition failed :: "string \<Rightarrow> outcome" where
  "failed msg = (False, [Log ERROR msg])"

definition logs :: "event list \<Rightarrow> (level \<times> string) list" where
  "logs t = concat (map (\<lambda>e. case e of Log l m \<Rightarrow> [(l, m)] | _ \<Rightarrow> []) t)"

subsection \<open>Text\<close>

text \<open>\<^verbatim>\<open>sub in text\<close> and \<^verbatim>\<open>text.lower()\<close>, the latter on the letters A to Z.\<close>

fun contains :: "string \<Rightarrow> string \<Rightarrow> bool" where
  "contains sub [] = (sub = [])"
| "contains sub (c # cs) = (take (length sub) (c # cs) = sub \<or> contains sub cs)"

definition lower_char :: "char \<Rightarrow> char" where
  "lower_char c =
     (case map_of (zip ''ABCDEFGHIJKLMNOPQRSTUVWXYZ'' ''abcdefghijklmnopqrstuvwxyz'') c of
        None \<Rightarrow> c | Some l \<Rightarrow> l)"

definition lower :: "string \<Rightarrow> string" where
  "lower s = map lower_char s"

text \<open>The test of lines 252 and 253 of coupon\_service.py and 334 of store\_discovery.py.\<close>

definition on_login_page :: "string \<Rightarrow> bool" where
  "on_login_page url =
     list_ex (\<lambda>x. contains x (lower url)) [''/signin'', ''/login'', ''/account/sign-in'']"

subsection \<open>Helpers of both services\<close>

text \<open>
  \<^verbatim>\<open>_wait_and_click\<close>: nothing for a falsy element; else the delay, the click, and a warning
  when the click raises. Callers ignore its result.
\<close>

definition wait_and_click :: "element option \<Rightarrow> target \<Rightarrow> event list" where
  "wait_and_click el t =
     (case el of None \<Rightarrow> []
      | Some e \<Rightarrow> [Timeout 500, Click t] @
          (case click_error e of None \<Rightarrow> []
           | Some msg \<Rightarrow> [Log WARNING (''Failed to click element: '' @ msg)]))"

text \<open>
  \<^verbatim>\<open>_wait_for_elements\<close>, lines 133 to 146 of coupon\_service.py: \<open>replies i\<close> answers the
  query of the attempt numbered \<open>i\<close> from 0.
\<close>

function wait_for_elements ::
  "(nat \<Rightarrow> 'a option reply) \<Rightarrow> query \<Rightarrow> nat \<Rightarrow> 'a option \<times> event list" where
  "wait_for_elements replies q retry_count =
     (if retry_count < 3
      then (case replies retry_count of
              Returns (Some elements) \<Rightarrow> (Some elements, [Query q])
            | Returns None \<Rightarrow>
                (let r = wait_for_elements replies q (retry_count + 1)
                 in (fst r, [Query q, Timeout 1000] @ snd r))
            | Raises msg \<Rightarrow>
                (let r = wait_for_elements replies q (retry_count + 1)
                 in (fst r,
                     [Query q,
                      Log WARNING (''Attempt '' @ str_nat (retry_count + 1) @
                                   '' failed to find elements: '' @ msg),
                      Timeout 1000] @ snd r)))
      else (None, []))"
  by pat_completeness auto
termination
  by (relation "measure (\<lambda>(replies, q, retry_count). 3 - retry_count)") auto

declare wait_for_elements.simps [simp del]

subsection \<open>The login flow of the clipping service\<close>

text \<open>
  \<^verbatim>\<open>DynamicCouponService._handle_login_flow\<close>, lines 159 to 278 of coupon\_service.py. The
  script gives the replies to its queries; \<open>header_replies\<close> and the two \<open>verify\<close> fields
  are indexed by the attempt. An exception anywhere in the flow is caught at line 276,
  logged, and the flow returns \<^verbatim>\<open>False\<close>.
\<close>

record login_script =
  header_replies :: "nat \<Rightarrow> store_info option reply"
  page_content :: "string reply"
  welcome_reply :: "welcome_modal option reply"
  login_reply :: "login_modal option reply"
  password_reply :: "password_modal option reply"
  verify_url :: "nat \<Rightarrow> string"
  verify_reply :: "nat \<Rightarrow> store_info option reply"

text \<open>
  The text of the AttributeError that \<^verbatim>\<open>store_config.credentials.email\<close> raises when the
  configuration has no credentials.
\<close>

definition no_attribute :: "string \<Rightarrow> string" where
  "no_attribute a =
     CHR 0x27 # ''NoneType'' @ CHR 0x27 # '' object has no attribute '' @ CHR 0x27 # a @ [CHR 0x27]"

definition raised :: "string \<Rightarrow> outcome" where
  "raised msg = (False, [Log ERROR (''Error during login flow: '' @ msg)])"

text \<open>Lines 245 to 274: the verification after the submit.\<close>

function verify_login_loop :: "login_script \<Rightarrow> nat \<Rightarrow> outcome" where
  "verify_login_loop s retry_count =
     (if retry_count < 5
      then prepend [WaitReady 2000]
        (if on_login_page (verify_url s retry_count)
         then prepend
                [Log WARNING (''Still on login page after '' @ str_nat (retry_count + 1) @ '' attempts''),
                 Timeout 1000]
                (verify_login_loop s (retry_count + 1))
         else prepend [Query STORE_INFO_QUERY]
           (case verify_reply s retry_count of
              Raises msg \<Rightarrow> raised msg
            | Returns verify_elements \<Rightarrow>
                (case (case verify_elements of None \<Rightarrow> None | Some info \<Rightarrow> header info) of
                   None \<Rightarrow>
                     prepend
                       [Log WARNING ''Could not verify header elements after login attempt'',
                        Timeout 1000]
                       (verify_login_loop s (retry_count + 1))
                 | Some h \<Rightarrow>
                     (case sign_in_btn h of
                        None \<Rightarrow>
                          (True, [Log INFO ''Login successful - sign in button no longer present''])
                      | Some b \<Rightarrow>
                          prepend
                            [Log WARNING ''Sign in button still present after login attempt'',
                             Timeout 1000]
                            (verify_login_loop s (retry_count + 1))))))
      else failed ''Failed to verify login completion after maximum retries'')"
  by pat_completeness auto
termination
  by (relation "measure (\<lambda>(s, retry_count). 5 - retry_count)") auto

declare verify_login_loop.simps [simp del]

text \<open>Step 4, lines 221 to 243, then the verification.\<close>

definition password_stage :: "login_script \<Rightarrow> store_credentials option \<Rightarrow> outcome" where
  "password_stage s creds =
     prepend [Query PASSWORD_MODAL_QUERY]
       (case password_reply s of
          Raises msg \<Rightarrow> raised msg
        | Returns None \<Rightarrow> failed ''Could not find password modal''
        | Returns (Some m) \<Rightarrow>
            prepend [Log INFO ''Found password modal'']
              (case password_box m of
                 None \<Rightarrow> failed ''Could not find password input field''
               | Some box \<Rightarrow>
                   (case creds of
                      None \<Rightarrow> raised (no_attribute ''password'')
                    | Some c \<Rightarrow>
                        prepend [Fill PasswordBox (Some (password c))]
                          (case fill_error box of
                             Some msg \<Rightarrow> raised msg
                           | None \<Rightarrow>
                               prepend [Log INFO ''Entered password'']
                                 (case modal_sign_in_btn m of
                                    None \<Rightarrow> failed ''Could not find sign in button in password modal''
                                  | Some btn \<Rightarrow>
                                      prepend
                                        (wait_and_click (Some btn) SubmitButton @
                                         [Log INFO ''Clicked sign in button''])
                                        (verify_login_loop s 0))))))"

text \<open>Step 3, lines 196 to 219.\<close>

definition login_options_stage :: "login_script \<Rightarrow> store_credentials option \<Rightarrow> outcome" where
  "login_options_stage s creds =
     prepend [Query LOGIN_OPTIONS_MODAL_QUERY]
       (case login_reply s of
          Raises msg \<Rightarrow> raised msg
        | Returns None \<Rightarrow> failed ''Could not find login modal''
        | Returns (Some m) \<Rightarrow>
            prepend [Log INFO ''Found login options modal'']
              (case email_box m of
                 None \<Rightarrow> failed ''Could not find email input field''
               | Some box \<Rightarrow>
                   (case creds of
                      None \<Rightarrow> raised (no_attribute ''email'')
                    | Some c \<Rightarrow>
                        prepend [Fill EmailBox (email c)]
                          (case fill_error box of
                             Some msg \<Rightarrow> raised msg
                           | None \<Rightarrow>
                               prepend [Log INFO ''Entered email'']
                                 (case password_btn m of
                                    None \<Rightarrow> failed ''Could not find password button''
                                  | Some btn \<Rightarrow>
                                      prepend
                                        (wait_and_click (Some btn) PasswordOption @
                                         [WaitReady 2000, Log INFO ''Selected password login option''])
                                        (password_stage s creds))))))"

text \<open>Step 2, lines 186 to 194: the welcome modal is optional.\<close>

definition welcome_stage :: "login_script \<Rightarrow> store_credentials option \<Rightarrow> outcome" where
  "welcome_stage s creds =
     prepend [Query INITIAL_MODAL_QUERY]
       (case welcome_reply s of
          Raises msg \<Rightarrow> raised msg
        | Returns None \<Rightarrow> login_options_stage s creds
        | Returns (Some w) \<Rightarrow>
            (case welcome_sign_in_btn w of
               Some btn \<Rightarrow>
                 prepend
                   ([Log INFO ''Found welcome modal, clicking sign in''] @
                    wait_and_click (Some btn) WelcomeSignIn @ [WaitReady 2000])
                   (login_options_stage s creds)
             | None \<Rightarrow>
                 prepend [Log WARNING ''Welcome modal found but missing sign in button'']
                   (login_options_stage s creds)))"

text \<open>Step 1, lines 162 to 184, and the whole flow.\<close>

definition header_missing :: "login_script \<Rightarrow> outcome" where
  "header_missing s =
     (False,
      [Log ERROR ''Could not find header section after retries''] @
      (case page_content s of
         Returns content \<Rightarrow> [Log DEBUG (''Page content: '' @ take 500 content @ ''...'')]
       | Raises msg \<Rightarrow> [Log ERROR (''Failed to get page content: '' @ msg)]))"

definition handle_login_flow :: "login_script \<Rightarrow> store_credentials option \<Rightarrow> outcome" where
  "handle_login_flow s creds =
     prepend [Log INFO ''Waiting for initial page load...'', WaitReady 2000]
       (let r = wait_for_elements (header_replies s) STORE_INFO_QUERY 0
        in prepend (snd r)
          (case (case fst r of None \<Rightarrow> None | Some info \<Rightarrow> header info) of
             None \<Rightarrow> header_missing s
           | Some h \<Rightarrow>
               (case sign_in_btn h of
                  None \<Rightarrow> failed ''Could not find sign in button in header after retries''
                | Some btn \<Rightarrow>
                    prepend
                      ([Log INFO ''Clicking initial sign in button''] @
                       wait_and_click (Some btn) HeaderSignIn @ [WaitReady 2000])
                      (welcome_stage s creds))))"

subsection \<open>The login flow of the discovery service\<close>

text \<open>
  \<^verbatim>\<open>StoreDiscoveryService._handle_login_flow\<close>, lines 218 to 273 of store\_discovery.py, on
  the same script: it queries the header once (attempt 0), skips every step whose
  elements are missing, and returns \<^verbatim>\<open>True\<close> exactly when it finds the password modal.
\<close>

definition discovery_submit :: "password_modal \<Rightarrow> outcome" where
  "discovery_submit m =
     (True,
      case modal_sign_in_btn m of None \<Rightarrow> []
      | Some btn \<Rightarrow>
          wait_and_click (Some btn) SubmitButton @ [WaitReady 500, Log INFO ''Submitted login form''])"

definition discovery_password_stage :: "login_script \<Rightarrow> store_credentials option \<Rightarrow> outcome" where
  "discovery_password_stage s creds =
     prepend [Query PASSWORD_MODAL_QUERY]
       (case password_reply s of
          Raises msg \<Rightarrow> raised msg
        | Returns None \<Rightarrow> (False, [])
        | Returns (Some m) \<Rightarrow>
            prepend [Log INFO ''Found password modal'']
              (case password_box m of
                 None \<Rightarrow> discovery_submit m
               | Some box \<Rightarrow>
                   (case creds of
                      None \<Rightarrow> raised (no_attribute ''password'')
                    | Some c \<Rightarrow>
                        prepend [Fill PasswordBox (Some (password c))]
                          (case fill_error box of
                             Some msg \<Rightarrow> raised msg
                           | None \<Rightarrow>
                               prepend [Log INFO ''Entered password''] (discovery_submit m)))))"

definition discovery_password_option :: "login_modal \<Rightarrow> event list" where
  "discovery_password_option m =
     (case password_btn m of None \<Rightarrow> []
      | Some btn \<Rightarrow>
          wait_and_click (Some btn) PasswordOption @
          [WaitReady 500, Log INFO ''Selected password login option''])"

definition discovery_login_stage :: "login_script \<Rightarrow> store_credentials option \<Rightarrow> outcome" where
  "discovery_login_stage s creds =
     prepend [Query LOGIN_OPTIONS_MODAL_QUERY]
       (case login_reply s of
          Raises msg \<Rightarrow> raised msg
        | Returns None \<Rightarrow> discovery_password_stage s creds
        | Returns (Some m) \<Rightarrow>
            prepend [Log INFO ''Found login options modal'']
              (case email_box m of
                 None \<Rightarrow> prepend (discovery_password_option m) (discovery_password_stage s creds)
               | Some box \<Rightarrow>
                   (case creds of
                      None \<Rightarrow> raised (no_attribute ''email'')
                    | Some c \<Rightarrow>
                        prepend [Fill EmailBox (email c)]
                          (case fill_error box of
                             Some msg \<Rightarrow> raised msg
                           | None \<Rightarrow>
                               prepend ([Log INFO ''Entered email''] @ discovery_password_option m)
                                 (discovery_password_stage s creds)))))"

definition discovery_welcome_stage :: "login_script \<Rightarrow> store_credentials option \<Rightarrow> outcome" where
  "discovery_welcome_stage s creds =
     prepend [Query INITIAL_MODAL_QUERY]
       (case welcome_reply s of
          Raises msg \<Rightarrow> raised msg
        | Returns None \<Rightarrow> discovery_login_stage s creds
        | Returns (Some w) \<Rightarrow>
            prepend
              ([Log INFO ''Found welcome modal, clicking sign in''] @
               wait_and_click (welcome_sign_in_btn w) WelcomeSignIn @ [WaitReady 500])
              (discovery_login_stage s creds))"

definition discovery_login_flow :: "login_script \<Rightarrow> store_credentials option \<Rightarrow> outcome" where
  "discovery_login_flow s creds =
     prepend [Query STORE_INFO_QUERY]
       (case header_replies s 0 of
          Raises msg \<Rightarrow> raised msg
        | Returns elements \<Rightarrow>
            (case (case (case elements of None \<Rightarrow> None | Some info \<Rightarrow> header info) of
                     None \<Rightarrow> None | Some h \<Rightarrow> sign_in_btn h) of
               None \<Rightarrow> discovery_welcome_stage s creds
             | Some btn \<Rightarrow>
                 prepend
                   ([Log INFO ''Clicking initial sign in button''] @
                    wait_and_click (Some btn) HeaderSignIn @ [WaitReady 500])
                   (discovery_welcome_stage s creds)))"

subsection \<open>The store identifier and the session file of the services\<close>

text \<open>
  Line 345 of store\_discovery.py and line 423 of coupon\_service.py:
  \<^verbatim>\<open>store_config.id or hash(str(store_config.base_url))\<close>. \<open>hash\<close> is the built-in of the
  running interpreter on \<^verbatim>\<open>str\<close>, a parameter here; an id of 0 is falsy. The session file
  is \<^verbatim>\<open>app/sessions/<user_id>/store_<store_id>_session.json\<close>, the path the session
  manager uses for that pair.
\<close>

definition store_id_of :: "(string \<Rightarrow> int) \<Rightarrow> store_config \<Rightarrow> int" where
  "store_id_of hash cfg =
     (case config_id cfg of
        None \<Rightarrow> hash (base_url cfg)
      | Some i \<Rightarrow> if i = 0 then hash (base_url cfg) else i)"

text \<open>A path as the logs show it, from the working directory.\<close>

definition path_text :: "path \<Rightarrow> string" where
  "path_text p = ''app/sessions/'' @ fst p @ ''/'' @ snd p"

definition session_file :: "(string \<Rightarrow> int) \<Rightarrow> store_config \<Rightarrow> int \<Rightarrow> path" where
  "session_file hash cfg user_id = get_store_session_path user_id (store_id_of hash cfg)"

subsection \<open>Verification of a login by the discovery service\<close>

text \<open>
  \<^verbatim>\<open>StoreDiscoveryService.verify_login\<close>, lines 311 to 360 of store\_discovery.py, from the
  creation of the page on. \<open>open_error\<close> is an exception of \<^verbatim>\<open>new_page\<close>, \<^verbatim>\<open>wrap_async\<close> or
  \<^verbatim>\<open>goto\<close>; \<open>storage_state\<close> is what \<^verbatim>\<open>context.storage_state(path=...)\<close> writes, or the
  exception it raises. The result is the flag, the trace and the file system.
\<close>

record verify_script =
  login :: login_script
  open_error :: "string option"
  storage_state :: "pyval reply"

definition verify_login ::
  "(string \<Rightarrow> int) \<Rightarrow> verify_script \<Rightarrow> store_config \<Rightarrow> int \<Rightarrow> filesystem
     \<Rightarrow> bool \<times> event list \<times> filesystem" where
  "verify_login hash vs cfg user_id fs =
     (case open_error vs of
        Some msg \<Rightarrow> (False, [Log ERROR (''Failed during login verification: '' @ msg)], fs)
      | None \<Rightarrow>
          (let t0 = [Log INFO ''Browser launched and page wrapped with AgentQL'',
                     Log INFO (''Navigating to main URL: '' @ base_url cfg),
                     Goto (base_url cfg), WaitReady 500];
               r = discovery_login_flow (login vs) (credentials cfg)
           in if \<not> fst r
              then (False, t0 @ snd r @ [Log ERROR ''Failed to complete login flow''], fs)
              else
                (let t1 = t0 @ snd r @ [WaitReady 500];
                     current_url = verify_url (login vs) 0
                 in if on_login_page current_url
                    then (False,
                          t1 @ [Log ERROR ''Still on login page after submission - login likely failed''],
                          fs)
                    else
                      (let t2 = t1 @ [Log INFO (''Successfully navigated to: '' @ current_url)];
                           fs1 = makedirs (get_user_session_dir user_id) fs;
                           file = session_file hash cfg user_id
                       in case storage_state vs of
                            Raises msg \<Rightarrow>
                              (False,
                               t2 @ [Log ERROR (''Error during post-login verification: '' @ msg)],
                               fs1)
                          | Returns state \<Rightarrow>
                              (True,
                               t2 @ [Log INFO (''Cached authenticated session for user '' @
                                       str_int user_id @ '' to: '' @ path_text file)],
                               write_file file (JsonText state) fs1)))))"

subsection \<open>Observations on traces\<close>

text \<open>The events that give the password to the page: filling the password box, and the submit.\<close>

definition touches_password :: "event \<Rightarrow> bool" where
  "touches_password e =
     (case e of Fill t v \<Rightarrow> t = PasswordBox | Click t \<Rightarrow> t = SubmitButton | _ \<Rightarrow> False)"

text \<open>
  A flow that failed without giving the password to the page, and one that moreover, if it
  came to ask for the password modal, ended on the error that the modal was not found.
\<close>

definition fails_untouched :: "outcome \<Rightarrow> bool" where
  "fails_untouched r \<longleftrightarrow> \<not> fst r \<and> \<not> list_ex touches_password (snd r)"

definition fails_modal_not_found :: "outcome \<Rightarrow> bool" where
  "fails_modal_not_found r \<longleftrightarrow>
     fails_untouched r \<and>
     (if Query PASSWORD_MODAL_QUERY \<in> set (snd r)
      then snd r \<noteq> [] \<and> last (snd r) = Log ERROR ''Could not find password modal''
      else True)"

subsection \<open>Scripted pages, for the examples\<close>

text \<open>
  An element that accepts clicks and text; a header with and without the sign-in button; a
  page that shows no welcome modal, signs the user in and drops the sign-in button on the
  first verification; and the same page with no password modal.
\<close>

definition plain_element :: element where
  "plain_element =
     \<lparr>click_error = None, fill_error = None, text_content = Returns None, href = Returns None\<rparr>"

definition signed_out_header :: "store_info option reply" where
  "signed_out_header =
     Returns (Some \<lparr>header = Some \<lparr>title = Some plain_element, sign_in_btn = Some plain_element\<rparr>\<rparr>)"

definition signed_in_header :: "store_info option reply" where
  "signed_in_header =
     Returns (Some \<lparr>header = Some \<lparr>title = Some plain_element, sign_in_btn = None\<rparr>\<rparr>)"

definition script_no_welcome :: login_script where
  "script_no_welcome =
     \<lparr>header_replies = (\<lambda>i. signed_out_header),
      page_content = Returns ''<html></html>'',
      welcome_reply = Returns None,
      login_reply = Returns (Some \<lparr>email_box = Some plain_element, password_btn = Some plain_element\<rparr>),
      password_reply =
        Returns (Some \<lparr>password_box = Some plain_element, modal_sign_in_btn = Some plain_element\<rparr>),
      verify_url = (\<lambda>i. ''https://www.kroger.com/''),
      verify_reply = (\<lambda>i. signed_in_header)\<rparr>"

definition script_no_password_modal :: login_script where
  "script_no_password_modal = script_no_welcome\<lparr>password_reply := Returns None\<rparr>"

definition example_credentials :: store_credentials where
  "example_credentials =
     \<lparr>username = None, email = Some ''user@example.com'', password = ''password123''\<rparr>"

text \<open>A page that still shows the sign-in button after the submit, as after a wrong
  password.\<close>

definition script_wrong_password :: login_script where
  "script_wrong_password = script_no_welcome\<lparr>verify_reply := (\<lambda>i. signed_out_header)\<rparr>"

subsection \<open>Verification attempts\<close>

text \<open>
  What the attempt numbered \<open>i\<close> of the verification sees: \<open>converges\<close> when the URL has left
  the login pages and the header is there without its sign-in button, \<open>breaks\<close> when the
  header query raises, which ends the flow at line 276.
\<close>

definition signed_in :: "store_info option \<Rightarrow> bool" where
  "signed_in r =
     (case (case r of None \<Rightarrow> None | Some info \<Rightarrow> header info) of
        None \<Rightarrow> False | Some h \<Rightarrow> sign_in_btn h = None)"

definition converges :: "login_script \<Rightarrow> nat \<Rightarrow> bool" where
  "converges s i \<longleftrightarrow>
     \<not> on_login_page (verify_url s i) \<and>
     (case verify_reply s i of Raises msg \<Rightarrow> False | Returns r \<Rightarrow> signed_in r)"

definition breaks :: "login_script \<Rightarrow> nat \<Rightarrow> bool" where
  "breaks s i \<longleftrightarrow>
     \<not> on_login_page (verify_url s i) \<and>
     (case verify_reply s i of Raises msg \<Rightarrow> True | Returns r \<Rightarrow> False)"

text \<open>
  The attempts of a trace are its waits for the page to be ready; they are spaced when each
  one but the first comes directly after a wait of 1000 ms.
\<close>

definition attempts :: "event list \<Rightarrow> nat" where
  "attempts t = length (filter (\<lambda>e. e = WaitReady 2000) t)"

fun spaced :: "event list \<Rightarrow> bool" where
  "spaced (a # b # t) = ((b = WaitReady 2000 \<longrightarrow> a = Timeout 1000) \<and> spaced (b # t))"
| "spaced t = True"

definition example_config :: store_config where
  "example_config =
     \<lparr>config_id = Some 7, name = ''Kroger'', base_url = ''https://www.kroger.com/'',
      login_url = ''https://www.kroger.com/signin'', credentials = Some example_credentials\<rparr>"

definition example_verify_script :: verify_script where
  "example_verify_script =
     \<lparr>login = script_wrong_password, open_error = None,
      storage_state = Returns (PDict [(''cookies'', PList []), (''origins'', PList [])])\<rparr>"


section \<open>Store discovery (app/services/store\_discovery.py)\<close>

subsection \<open>Text functions of the Python library\<close>

text \<open>
  Texts are read as Latin-1, one character for each code point below 256. \<open>py_repr\<close> is
  \<^verbatim>\<open>repr\<close> of a \<^verbatim>\<open>str\<close>: single quotes, unless the text has a single quote and no double
  quote; the quote in use and the backslash are escaped, tab, newline and carriage return
  are written \<^verbatim>\<open>\t\<close>, \<^verbatim>\<open>\n\<close>, \<^verbatim>\<open>\r\<close>, and the other characters that are not printable
  as \<^verbatim>\<open>\x\<close> and two hexadecimal digits.
\<close>

definition hex_digit :: "nat \<Rightarrow> char" where
  "hex_digit n = ''0123456789abcdef'' ! (n mod 16)"

definition printable :: "char \<Rightarrow> bool" where
  "printable c \<longleftrightarrow>
     (let n = (of_char c :: nat) in 32 \<le> n \<and> n \<noteq> 127 \<and> \<not> (128 \<le> n \<and> n \<le> 160) \<and> n \<noteq> 173)"

definition repr_char :: "char \<Rightarrow> char \<Rightarrow> string" where
  "repr_char quote c =
     (if c = quote \<or> c = CHR 0x5C then [CHR 0x5C, c]
      else if c = CHR 0x09 then [CHR 0x5C, CHR ''t'']
      else if c = CHR 0x0A then [CHR 0x5C, CHR ''n'']
      else if c = CHR 0x0D then [CHR 0x5C, CHR ''r'']
      else if printable c then [c]
      else [CHR 0x5C, CHR ''x'', hex_digit (of_char c div 16), hex_digit (of_char c)])"

definition py_repr :: "string \<Rightarrow> string" where
  "py_repr s =
     (let quote = (if CHR 0x27 \<in> set s \<and> CHR 0x22 \<notin> set s then CHR 0x22 else CHR 0x27)
      in quote # concat (map (repr_char quote) s) @ [quote])"

definition repr_optional :: "string option \<Rightarrow> string" where
  "repr_optional v = (case v of None \<Rightarrow> ''None'' | Some s \<Rightarrow> py_repr s)"

text \<open>
  \<^verbatim>\<open>str\<close> of a \<^verbatim>\<open>StoreCredentials\<close>: pydantic writes the fields of a model in their order,
  each as its name, \<^verbatim>\<open>=\<close> and the \<^verbatim>\<open>repr\<close> of its value, with spaces between.
\<close>

definition credentials_str :: "store_credentials \<Rightarrow> string" where
  "credentials_str c =
     ''username='' @ repr_optional (username c) @
     '' email='' @ repr_optional (email c) @
     '' password='' @ py_repr (password c)"

text \<open>\<^verbatim>\<open>s.endswith(suffix)\<close>, \<^verbatim>\<open>s.startswith(prefix)\<close>, \<^verbatim>\<open>s.split()\<close> and \<^verbatim>\<open>sep.join(words)\<close>.\<close>

definition endswith :: "string \<Rightarrow> string \<Rightarrow> bool" where
  "endswith s suffix \<longleftrightarrow>
     length suffix \<le> length s \<and> drop (length s - length suffix) s = suffix"

definition startswith :: "string \<Rightarrow> string \<Rightarrow> bool" where
  "startswith s prefix \<longleftrightarrow> take (length prefix) s = prefix"

definition is_space :: "char \<Rightarrow> bool" where
  "is_space c \<longleftrightarrow> (of_char c :: nat) \<in> set [9, 10, 11, 12, 13, 28, 29, 30, 31, 32, 133, 160]"

function split_ws :: "string \<Rightarrow> string list" where
  "split_ws s =
     (let s' = dropWhile is_space s
      in if s' = [] then []
         else takeWhile (\<lambda>c. \<not> is_space c) s' # split_ws (dropWhile (\<lambda>c. \<not> is_space c) s'))"
  by pat_completeness auto
termination
proof (relation "measure length")
  show "wf (measure length)"
    by simp
next
  fix s s' :: string
  assume s': "s' = dropWhile is_space s" and ne: "s' \<noteq> []"
  from ne obtain c cs where cs: "s' = c # cs"
    by (cases s') auto
  with s' have "dropWhile is_space s = c # cs"
    by simp
  then have "\<not> is_space c"
    by (simp add: dropWhile_eq_Cons_conv)
  then have "length (dropWhile (\<lambda>c. \<not> is_space c) s') \<le> length cs"
    by (simp add: cs length_dropWhile_le)
  moreover have "length s' \<le> length s"
    by (simp add: s' length_dropWhile_le)
  ultimately show "(dropWhile (\<lambda>c. \<not> is_space c) s', s) \<in> measure length"
    by (simp add: cs)
qed

declare split_ws.simps [simp del]

fun join :: "string \<Rightarrow> string list \<Rightarrow> string" where
  "join sep [] = []"
| "join sep [w] = w"
| "join sep (w # v # ws) = w @ sep @ join sep (v # ws)"

text \<open>\<^verbatim>\<open>s.title()\<close> on the letters A to Z: a letter is upper case after a character that is
  no letter, lower case after a letter.\<close>

definition upper_char :: "char \<Rightarrow> char" where
  "upper_char c =
     (case map_of (zip ''abcdefghijklmnopqrstuvwxyz'' ''ABCDEFGHIJKLMNOPQRSTUVWXYZ'') c of
        None \<Rightarrow> c | Some u \<Rightarrow> u)"

definition is_letter :: "char \<Rightarrow> bool" where
  "is_letter c \<longleftrightarrow> lower_char c \<noteq> c \<or> upper_char c \<noteq> c"

fun title_from :: "bool \<Rightarrow> string \<Rightarrow> string" where
  "title_from in_word [] = []"
| "title_from in_word (c # cs) =
     (if in_word then lower_char c else upper_char c) # title_from (is_letter c) cs"

definition title_case :: "string \<Rightarrow> string" where
  "title_case s = title_from False s"

text \<open>
  \<^verbatim>\<open>urlparse(url).scheme\<close> and \<^verbatim>\<open>.netloc\<close> for a URL of the form the schema has validated,
  \<^verbatim>\<open>scheme://netloc\<close> followed by nothing or by a path, a query or a fragment.
\<close>

definition url_scheme :: "string \<Rightarrow> string" where
  "url_scheme url = lower (takeWhile (\<lambda>c. c \<noteq> CHR '':'') url)"

definition url_netloc :: "string \<Rightarrow> string" where
  "url_netloc url =
     takeWhile (\<lambda>c. c \<notin> set ''/?#'') (drop (length (takeWhile (\<lambda>c. c \<noteq> CHR '':'') url) + 3) url)"

subsection \<open>Analysis of a store page\<close>

text \<open>
  \<^verbatim>\<open>StoreDiscoveryService.analyze_store\<close>, lines 113 to 202, from the creation of the page
  on. \<open>hash\<close> is the interpreter's \<^verbatim>\<open>hash\<close> and \<open>urljoin\<close> the function of
  \<^verbatim>\<open>urllib.parse\<close>, both parameters; \<open>goto_error\<close> is an exception of \<^verbatim>\<open>goto\<close>,
  \<open>validation_error\<close> one raised when \<^verbatim>\<open>StoreConfig\<close> validates its fields. The result is
  the configuration, if any, and the trace.
\<close>

record store_discovery =
  url :: string
  discovery_credentials :: store_credentials

record analyze_script =
  goto_error :: "string option"
  elements_reply :: "store_info option reply"
  validation_error :: "string option"

definition common_suffixes :: "string list" where
  "common_suffixes =
     [''| Official Site'', ''| Home'', ''| Online Grocery Shopping'',
      ''- Official Site'', ''- Home'', ''- Online Grocery Shopping'']"

definition strip_suffix :: "string \<Rightarrow> string \<Rightarrow> string" where
  "strip_suffix suffix store_name =
     (if endswith store_name suffix then take (length store_name - length suffix) store_name
      else store_name)"

definition clean_title :: "string \<Rightarrow> string" where
  "clean_title text = join '' '' (split_ws (fold strip_suffix common_suffixes text))"

text \<open>Lines 137 to 156: the name from the title, \<open>None\<close> when there is no title or it raises.\<close>

definition name_from_title :: "header_node \<Rightarrow> string option \<times> event list" where
  "name_from_title h =
     (case title h of
        None \<Rightarrow> (None, [])
      | Some el \<Rightarrow>
          (case text_content el of
             Raises msg \<Rightarrow> (None, [Log WARNING (''Could not get page title: '' @ msg)])
           | Returns None \<Rightarrow>
               (None, [Log WARNING (''Could not get page title: '' @ no_attribute ''endswith'')])
           | Returns (Some text) \<Rightarrow> (Some (clean_title text), [])))"

text \<open>Lines 158 to 160: the first label of the host, in title case.\<close>

definition fallback_name :: "string \<Rightarrow> string" where
  "fallback_name u = title_case (takeWhile (\<lambda>c. c \<noteq> CHR ''.'') (url_netloc u))"

text \<open>Lines 168 to 175: the link target of the sign-in button, joined to the origin unless
  it starts with \<^verbatim>\<open>http\<close>.\<close>

definition login_url_from_button ::
  "(string \<Rightarrow> string \<Rightarrow> string) \<Rightarrow> string \<Rightarrow> header_node \<Rightarrow> string option \<times> event list" where
  "login_url_from_button urljoin origin h =
     (case sign_in_btn h of
        None \<Rightarrow> (None, [])
      | Some el \<Rightarrow>
          (case href el of
             Raises msg \<Rightarrow>
               (None, [Log WARNING (''Could not get href from sign in button: '' @ msg)])
           | Returns None \<Rightarrow> (None, [])
           | Returns (Some l) \<Rightarrow>
               (if l \<noteq> [] \<and> \<not> startswith l ''http'' then (Some (urljoin origin l), [])
                else (Some l, []))))"

definition analyze_store ::
  "(string \<Rightarrow> int) \<Rightarrow> (string \<Rightarrow> string \<Rightarrow> string) \<Rightarrow> analyze_script \<Rightarrow> store_discovery
     \<Rightarrow> store_config option \<times> event list" where
  "analyze_store hash urljoin script discovery_config =
     (let u = url discovery_config;
          t0 = [Log INFO ''Browser launched and page wrapped with AgentQL'',
                Timeout (1000 + nat (hash u mod 1000)),
                Log INFO (''Attempting to navigate to URL: '' @ u),
                Goto u]
      in case goto_error script of
           Some msg \<Rightarrow> (None, t0 @ [Log ERROR (''Failed during store analysis: '' @ msg)])
         | None \<Rightarrow>
             (let t1 = t0 @ [WaitReady 500, Log INFO ''Page loaded successfully'',
                             Query STORE_INFO_QUERY]
              in case elements_reply script of
                   Raises msg \<Rightarrow>
                     (None, t1 @ [Log ERROR (''Failed during store analysis: '' @ msg)])
                 | Returns elements \<Rightarrow>
                     (case (case elements of None \<Rightarrow> None | Some info \<Rightarrow> header info) of
                        None \<Rightarrow>
                          (None,
                           t1 @ [Log INFO ''Found store elements'',
                                 Log ERROR ''Could not find header elements''])
                      | Some h \<Rightarrow>
                          (let titled = name_from_title h;
                               named =
                                 (case fst titled of
                                    Some n \<Rightarrow> if n = [] then None else Some n
                                  | None \<Rightarrow> None);
                               store_name =
                                 (case named of Some n \<Rightarrow> n | None \<Rightarrow> fallback_name u);
                               t2 = t1 @ [Log INFO ''Found store elements''] @ snd titled @
                                    (case named of
                                       Some n \<Rightarrow> []
                                     | None \<Rightarrow>
                                         [Log INFO (''Using fallback store name: '' @ store_name)]);
                               origin = url_scheme u @ ''://'' @ url_netloc u;
                               domain = lower (url_netloc u);
                               linked = login_url_from_button urljoin origin h;
                               found =
                                 (case fst linked of
                                    Some l \<Rightarrow> if l = [] then None else Some l
                                  | None \<Rightarrow> None);
                               login =
                                 (case found of
                                    Some l \<Rightarrow> l
                                  | None \<Rightarrow>
                                      if contains ''albertsons'' domain
                                      then origin @ ''/account/sign-in''
                                      else origin @ ''/signin'');
                               t3 = t2 @ snd linked @
                                    (case found of
                                       Some l \<Rightarrow> []
                                     | None \<Rightarrow>
                                         if contains ''albertsons'' domain
                                         then [Log INFO ''Using Albertsons-specific login URL'']
                                         else [Log INFO ''Using default fallback login URL'']) @
                                    [Log INFO (''Final login URL: '' @ login)]
                           in case validation_error script of
                                Some msg \<Rightarrow>
                                  (None,
                                   t3 @ [Log ERROR (''Failed during store analysis: '' @ msg)])
                              | None \<Rightarrow>
                                  (Some \<lparr>config_id = None, name = store_name, base_url = origin,
                                         login_url = login,
                                         credentials = Some (discovery_credentials discovery_config)\<rparr>,
                                   t3 @ [Log INFO (''Created store config with credentials: '' @
                                           credentials_str (discovery_credentials discovery_config))])))))"

text \<open>A store page with a title and a sign-in link, and two requests to analyse it that
  differ in the password alone.\<close>

definition example_store_page :: analyze_script where
  "example_store_page =
     \<lparr>goto_error = None,
      elements_reply =
        Returns (Some \<lparr>header = Some
          \<lparr>title = Some (plain_element\<lparr>text_content := Returns (Some ''Acme Grocery | Official Site'')\<rparr>),
           sign_in_btn = Some (plain_element\<lparr>href := Returns (Some ''https://www.acme.com/login'')\<rparr>)\<rparr>\<rparr>),
      validation_error = None\<rparr>"

definition example_discovery :: "string \<Rightarrow> store_discovery" where
  "example_discovery pw =
     \<lparr>url = ''https://www.acme.com/'',
      discovery_credentials = \<lparr>username = None, email = Some ''user@example.com'', password = pw\<rparr>\<rparr>"


section \<open>The hash of a text in the interpreter\<close>

text \<open>
  \<^verbatim>\<open>hash(s)\<close> for a \<^verbatim>\<open>str\<close> in CPython from version 3.11 on (Python/pyhash.c): 0 for the
  empty text, else SipHash-1-3 of the characters, here one byte each, under the 128-bit
  key of the interpreter, read as a signed 64-bit number, with -2 in place of -1. The
  interpreter draws the key at random when it starts, unless the environment variable
  \<^verbatim>\<open>PYTHONHASHSEED\<close> fixes it, so two runs of the program have two keys.
\<close>

type_synonym u64 = "64 word"

definition rotate :: "u64 \<Rightarrow> nat \<Rightarrow> u64" where
  "rotate x b = push_bit b x OR drop_bit (64 - b) x"

definition half_round ::
  "u64 \<times> u64 \<times> u64 \<times> u64 \<Rightarrow> nat \<Rightarrow> nat \<Rightarrow> u64 \<times> u64 \<times> u64 \<times> u64" where
  "half_round v s t =
     (case v of (a, b, c, d) \<Rightarrow>
        (let a = a + b; c = c + d;
             b = rotate b s XOR a;
             d = rotate d t XOR c;
             a = rotate a 32
         in (a, b, c, d)))"

definition single_round :: "u64 \<times> u64 \<times> u64 \<times> u64 \<Rightarrow> u64 \<times> u64 \<times> u64 \<times> u64" where
  "single_round v =
     (case v of (v0, v1, v2, v3) \<Rightarrow>
        (case half_round (v0, v1, v2, v3) 13 16 of (v0, v1, v2, v3) \<Rightarrow>
           (case half_round (v2, v1, v0, v3) 17 21 of (v2, v1, v0, v3) \<Rightarrow>
              (v0, v1, v2, v3))))"

text \<open>Up to eight bytes as a number, the first byte lowest.\<close>

fun le64 :: "string \<Rightarrow> u64" where
  "le64 [] = 0"
| "le64 (c # cs) = word_of_nat (of_char c) OR push_bit 8 (le64 cs)"

function compress ::
  "u64 \<times> u64 \<times> u64 \<times> u64 \<Rightarrow> string \<Rightarrow> (u64 \<times> u64 \<times> u64 \<times> u64) \<times> string" where
  "compress v src =
     (if 8 \<le> length src
      then (case v of (v0, v1, v2, v3) \<Rightarrow>
              (let mi = le64 (take 8 src)
               in case single_round (v0, v1, v2, v3 XOR mi) of (v0, v1, v2, v3) \<Rightarrow>
                    compress (v0 XOR mi, v1, v2, v3) (drop 8 src)))
      else (v, src))"
  by pat_completeness auto
termination
  by (relation "measure (\<lambda>(v, src). length src)") auto

declare compress.simps [simp del]

definition siphash13 :: "u64 \<Rightarrow> u64 \<Rightarrow> string \<Rightarrow> u64" where
  "siphash13 k0 k1 src =
     (let b = push_bit 56 (word_of_nat (length src))
      in case compress (k0 XOR 0x736f6d6570736575, k1 XOR 0x646f72616e646f6d,
                        k0 XOR 0x6c7967656e657261, k1 XOR 0x7465646279746573) src of
           ((v0, v1, v2, v3), rest) \<Rightarrow>
             (let b = b OR le64 rest
              in case single_round (v0, v1, v2, v3 XOR b) of (v0, v1, v2, v3) \<Rightarrow>
                   (case single_round
                           (single_round (single_round (v0 XOR b, v1, v2 XOR 0xff, v3))) of
                      (v0, v1, v2, v3) \<Rightarrow> (v0 XOR v1) XOR (v2 XOR v3))))"

definition py_hash :: "u64 \<times> u64 \<Rightarrow> string \<Rightarrow> int" where
  "py_hash key s =
     (if s = [] then 0
      else (let x = sint (siphash13 (fst key) (snd key) s) in if x = - 1 then - 2 else x))"

text \<open>The keys of the interpreter under \<^verbatim>\<open>PYTHONHASHSEED=1\<close> and \<^verbatim>\<open>PYTHONHASHSEED=2\<close>, and a
  store that has no id yet.\<close>

definition key_of_run_1 :: "u64 \<times> u64" where
  "key_of_run_1 = (0xaed66ce184be2329, 0xebe9bbf1f1499052)"

definition key_of_run_2 :: "u64 \<times> u64" where
  "key_of_run_2 = (0x3ffec22c8386202d, 0xa5995e6c1db58cd1)"

definition new_store :: store_config where
  "new_store = example_config\<lparr>config_id := None\<rparr>"


section \<open>Coupon clipping (app/services/coupon\_service.py)\<close>

subsection \<open>The coupon page\<close>

text \<open>The nodes of a reply to \<^verbatim>\<open>COUPON_PAGE_QUERY\<close>; any of them may be missing.\<close>

record coupon_offer =
  offer_title :: string
  description :: string
  savings :: string
  expiration :: string
  terms :: string

record clip_button =
  button :: element
  button_exists :: bool
  is_clipped :: bool

record coupon =
  offer :: "coupon_offer option"
  clip_btn :: "clip_button option"

record pagination_node =
  load_more_btn :: "element option"

record coupon_section_node =
  heading :: bool
  available_coupons :: "coupon list option"
  pagination :: "pagination_node option"

record coupon_page =
  coupon_section :: "coupon_section_node option"

text \<open>The text of the TypeError of a loop over \<^verbatim>\<open>None\<close>.\<close>

definition not_iterable :: string where
  "not_iterable = CHR 0x27 # ''NoneType'' @ CHR 0x27 # '' object is not iterable''"

subsection \<open>One offer\<close>

text \<open>
  Lines 335 to 341: the first coupon of the page read again whose title is the one just
  clicked, and whether it now reports clipped. \<open>Inl\<close> is an exception, with its text.
\<close>

fun find_coupon :: "string \<Rightarrow> coupon list \<Rightarrow> string + coupon option" where
  "find_coupon t [] = Inr None"
| "find_coupon t (c # cs) =
     (case offer c of
        None \<Rightarrow> Inl (no_attribute ''title'')
      | Some ofr \<Rightarrow> if offer_title ofr = t then Inr (Some c) else find_coupon t cs)"

definition reports_clipped :: "coupon_page option \<Rightarrow> string \<Rightarrow> string + bool" where
  "reports_clipped verify t =
     (case verify of
        None \<Rightarrow> Inl (no_attribute ''coupon_section'')
      | Some p \<Rightarrow>
          (case coupon_section p of
             None \<Rightarrow> Inl (no_attribute ''available_coupons'')
           | Some sec \<Rightarrow>
               (case available_coupons sec of
                  None \<Rightarrow> Inl not_iterable
                | Some cs \<Rightarrow>
                    (case find_coupon t cs of
                       Inl msg \<Rightarrow> Inl msg
                     | Inr None \<Rightarrow> Inr False
                     | Inr (Some current_coupon) \<Rightarrow>
                         (case clip_btn current_coupon of
                            None \<Rightarrow> Inl (no_attribute ''is_clipped'')
                          | Some b \<Rightarrow> Inr (is_clipped b))))))"

text \<open>
  Lines 323 to 355, the body of the loop over the coupons of a page: the offer recorded,
  if any, and the trace. \<open>reply\<close> answers the query that follows the click. An exception
  is logged and the loop goes on.
\<close>

definition clip_one :: "coupon_page option reply \<Rightarrow> coupon \<Rightarrow> coupon_offer list \<times> event list" where
  "clip_one reply c =
     (case clip_btn c of
        None \<Rightarrow> ([], [])
      | Some b \<Rightarrow>
          if button_exists b \<and> \<not> is_clipped b
          then (case offer c of
                  None \<Rightarrow>
                    ([], [Log ERROR (''Error clipping individual coupon: '' @ no_attribute ''title'')])
                | Some ofr \<Rightarrow>
                    (let t0 = [Log INFO (''Attempting to clip coupon: '' @ offer_title ofr)] @
                              wait_and_click (Some (button b)) (ClipButton (offer_title ofr)) @
                              [WaitReady 2000, Query COUPON_PAGE_QUERY]
                     in case (case reply of
                                Raises msg \<Rightarrow> Inl msg
                              | Returns verify \<Rightarrow> reports_clipped verify (offer_title ofr)) of
                          Inl msg \<Rightarrow>
                            ([], t0 @ [Log ERROR (''Error clipping individual coupon: '' @ msg)])
                        | Inr True \<Rightarrow>
                            ([ofr], t0 @ [Log INFO (''Successfully clipped coupon: '' @ offer_title ofr)])
                        | Inr False \<Rightarrow>
                            ([], t0 @ [Log WARNING (''Failed to verify clip for coupon: '' @
                                                    offer_title ofr)])))
          else ([], []))"

fun process_coupons ::
  "(nat \<Rightarrow> coupon_page option reply) \<Rightarrow> nat \<Rightarrow> coupon list \<Rightarrow> coupon_offer list \<times> event list" where
  "process_coupons replies j [] = ([], [])"
| "process_coupons replies j (c # cs) =
     (let one = clip_one (replies j) c;
          rest = process_coupons replies (Suc j) cs
      in (fst one @ fst rest, snd one @ snd rest))"

subsection \<open>The pages of coupons\<close>

text \<open>
  The script of a clip run. \<open>listing i\<close> answers the query that opens the pass numbered
  \<open>i\<close> of the loop of \<^verbatim>\<open>_clip_coupons\<close>, \<open>recheck i j\<close> the query after the click on the
  coupon numbered \<open>j\<close> of that pass. The other fields are the exceptions and replies of
  \<^verbatim>\<open>clip_coupons\<close>, in the order of its steps.
\<close>

record clip_script =
  launch_error :: "string option"
  load_state :: "pyval reply"
  navigate_error :: "string option"
  session_check :: "nat \<Rightarrow> store_info option reply"
  clip_login :: login_script
  cache_state :: "pyval reply"
  nav_reply :: "element option reply"
  arrival_reply :: "coupon_page option reply"
  listing :: "nat \<Rightarrow> coupon_page option reply"
  recheck :: "nat \<Rightarrow> nat \<Rightarrow> coupon_page option reply"
  context_close_error :: "string option"
  browser_close_error :: "string option"

definition finished :: "coupon_offer list \<Rightarrow> event" where
  "finished clipped_coupons =
     Log INFO (''Finished clipping coupons. Total clipped: '' @ str_nat (length clipped_coupons))"

text \<open>
  The loop of lines 310 to 364 with what follows it. It has no bound of its own: it ends
  when a page has no coupons or no button to load more. \<open>fuel\<close> bounds the number of
  passes, and \<open>None\<close> says that the fuel ran out. An exception of the listing query ends
  \<^verbatim>\<open>_clip_coupons\<close> at line 369 with the offers clipped so far.
\<close>

fun clip_pages ::
  "nat \<Rightarrow> clip_script \<Rightarrow> nat \<Rightarrow> coupon_offer list \<Rightarrow> (coupon_offer list \<times> event list) option" where
  "clip_pages 0 s i clipped_coupons = None"
| "clip_pages (Suc fuel) s i clipped_coupons =
     (case listing s i of
        Raises msg \<Rightarrow>
          Some (clipped_coupons,
                [Query COUPON_PAGE_QUERY,
                 Log ERROR (''Error in coupon clipping process: '' @ msg)])
      | Returns page_result \<Rightarrow>
          (case (case page_result of None \<Rightarrow> None | Some p \<Rightarrow> coupon_section p) of
             None \<Rightarrow> Some (clipped_coupons, [Query COUPON_PAGE_QUERY, finished clipped_coupons])
           | Some sec \<Rightarrow>
               (case (case available_coupons sec of None \<Rightarrow> [] | Some cs \<Rightarrow> cs) of
                  [] \<Rightarrow>
                    Some (clipped_coupons,
                          [Query COUPON_PAGE_QUERY, Log INFO ''No more coupons found on page'',
                           finished clipped_coupons])
                | c # cs \<Rightarrow>
                    (let r = process_coupons (recheck s i) 0 (c # cs);
                         clipped_coupons' = clipped_coupons @ fst r
                     in case (case pagination sec of None \<Rightarrow> None | Some pg \<Rightarrow> load_more_btn pg) of
                          None \<Rightarrow>
                            Some (clipped_coupons',
                                  Query COUPON_PAGE_QUERY # snd r @ [finished clipped_coupons'])
                        | Some b \<Rightarrow>
                            (case clip_pages fuel s (Suc i) clipped_coupons' of
                               None \<Rightarrow> None
                             | Some rest \<Rightarrow>
                                 Some (fst rest,
                                       Query COUPON_PAGE_QUERY # snd r @
                                       [Log INFO (''Found '' @ CHR 0x27 # ''Load More'' @
                                                  CHR 0x27 # '' button, loading next page...'')] @
                                       wait_and_click (Some b) LoadMoreButton @
                                       [WaitReady 2000] @ snd rest))))))"

text \<open>\<^verbatim>\<open>_clip_coupons\<close>, lines 304 to 371.\<close>

definition clip_all :: "nat \<Rightarrow> clip_script \<Rightarrow> (coupon_offer list \<times> event list) option" where
  "clip_all fuel s =
     (case clip_pages fuel s 0 [] of
        None \<Rightarrow> None
      | Some r \<Rightarrow> Some (fst r, Log INFO ''Starting to clip coupons...'' # snd r))"

text \<open>\<^verbatim>\<open>_navigate_to_coupons\<close>, lines 280 to 302.\<close>

definition navigate_to_coupons :: "clip_script \<Rightarrow> outcome" where
  "navigate_to_coupons s =
     prepend [Log INFO ''Attempting to navigate to coupons section...'', Query COUPON_NAV_QUERY]
       (case nav_reply s of
          Raises msg \<Rightarrow> failed (''Error navigating to coupons: '' @ msg)
        | Returns None \<Rightarrow> (False, [Log WARNING ''Could not find or navigate to coupons section''])
        | Returns (Some link) \<Rightarrow>
            prepend [Log INFO ''Found coupon navigation link'', WaitReady 2000,
                     Query COUPON_PAGE_QUERY]
              (case arrival_reply s of
                 Raises msg \<Rightarrow> failed (''Error navigating to coupons: '' @ msg)
               | Returns page_result \<Rightarrow>
                   (case (case page_result of None \<Rightarrow> None | Some p \<Rightarrow> coupon_section p) of
                      None \<Rightarrow>
                        (False, [Log WARNING ''Could not find or navigate to coupons section''])
                    | Some sec \<Rightarrow>
                        if heading sec
                        then (True, [Log INFO ''Successfully navigated to coupons page''])
                        else (False,
                              [Log WARNING ''Could not find or navigate to coupons section'']))))"

subsection \<open>A clip run\<close>

text \<open>The dictionary that \<^verbatim>\<open>clip_coupons\<close> returns.\<close>

record clip_result =
  success :: bool
  store :: string
  clipped_coupons :: "coupon_offer list"
  error :: "string option"

text \<open>
  Lines 468 to 482: navigation to the coupons, then the clipping. \<open>t\<close> and \<open>fs\<close> are the
  trace and the file system so far.
\<close>

definition navigate_and_clip ::
  "nat \<Rightarrow> clip_script \<Rightarrow> clip_result \<Rightarrow> event list \<Rightarrow> filesystem
     \<Rightarrow> (clip_result \<times> event list \<times> filesystem) option" where
  "navigate_and_clip fuel s result t fs =
     (let n = navigate_to_coupons s
      in if \<not> fst n
         then Some (result\<lparr>error := Some ''Failed to navigate to coupons section''\<rparr>,
                    t @ snd n @ [Log ERROR ''Navigation to coupons failed''], fs)
         else (case clip_all fuel s of
                 None \<Rightarrow> None
               | Some c \<Rightarrow>
                   Some (result\<lparr>clipped_coupons := fst c, success := 0 < length (fst c)\<rparr>,
                         t @ snd n @ snd c @
                         [if 0 < length (fst c)
                          then Log INFO (''Successfully clipped '' @ str_nat (length (fst c)) @
                                         '' coupons'')
                          else Log WARNING ''No coupons were clipped''],
                         fs)))"

text \<open>
  Lines 420 to 486, the inner \<^verbatim>\<open>try\<close> with its handler: the cached session, the page, the
  check of the session or the login, then \<open>navigate_and_clip\<close>. Writing the storage state
  to the session file is what line 430 does as well as line 465.
\<close>

definition try_clip ::
  "nat \<Rightarrow> (string \<Rightarrow> int) \<Rightarrow> clip_script \<Rightarrow> store_config \<Rightarrow> int \<Rightarrow> filesystem
     \<Rightarrow> (clip_result \<times> event list \<times> filesystem) option" where
  "try_clip fuel hash s cfg user_id fs =
     (let result = \<lparr>success = False, store = name cfg, clipped_coupons = [], error = None\<rparr>;
          file = session_file hash cfg user_id;
          loaded =
            (if path_exists file fs
             then (case load_state s of
                     Returns state \<Rightarrow>
                       (True,
                        [Log INFO (''Loaded cached session for user '' @ str_int user_id @
                                   '' from: '' @ path_text file)],
                        write_file file (JsonText state) fs)
                   | Raises msg \<Rightarrow>
                       (False, [Log WARNING (''Failed to load cached session: '' @ msg)], fs))
             else (False, [], fs));
          fs1 = snd (snd loaded);
          t1 = fst (snd loaded) @
               [Log INFO ''Browser launched and page wrapped with AgentQL'',
                Log INFO (''Navigating to main URL: '' @ base_url cfg),
                Goto (base_url cfg)]
      in case navigate_error s of
           Some msg \<Rightarrow>
             Some (result\<lparr>error := Some msg\<rparr>,
                   t1 @ [Log ERROR (''Error during coupon clipping process: '' @ msg)], fs1)
         | None \<Rightarrow>
             (let checked =
                    (if fst loaded
                     then (let r = wait_for_elements (session_check s) STORE_INFO_QUERY 0
                           in if signed_in (fst r)
                              then (True, snd r @ [Log INFO ''Cached session is still valid''])
                              else (False,
                                    snd r @ [Log WARNING
                                      ''Cached session expired, falling back to full login'']))
                     else (False, []));
                  t2 = t1 @ [WaitReady 2000] @ snd checked
              in if fst checked then navigate_and_clip fuel s result t2 fs1
                 else
                   (let l = handle_login_flow (clip_login s) (credentials cfg)
                    in if \<not> fst l
                       then Some (result\<lparr>error := Some ''Failed to login''\<rparr>,
                                  t2 @ snd l @ [Log ERROR ''Login failed''], fs1)
                       else
                         (let fs2 = makedirs (get_user_session_dir user_id) fs1
                          in case cache_state s of
                               Raises msg \<Rightarrow>
                                 Some (result\<lparr>error := Some msg\<rparr>,
                                       t2 @ snd l @
                                       [Log ERROR (''Error during coupon clipping process: '' @ msg)],
                                       fs2)
                             | Returns state \<Rightarrow>
                                 navigate_and_clip fuel s result
                                   (t2 @ snd l @
                                    [Log INFO (''Cached new session for user '' @ str_int user_id @
                                               '' to: '' @ path_text file)])
                                   (write_file file (JsonText state) fs2)))))"

text \<open>
  \<^verbatim>\<open>clip_coupons\<close>, lines 373 to 499. \<open>launch_error\<close> is an exception of the start of
  Playwright or of the browser, before there is a browser to close. An exception of
  \<^verbatim>\<open>context.close()\<close> is caught at line 491; one of \<^verbatim>\<open>browser.close()\<close> leaves the function,
  \<open>Inl\<close> with its text. \<open>None\<close> says that the fuel of the clip loop ran out.
\<close>

definition clip_coupons ::
  "nat \<Rightarrow> (string \<Rightarrow> int) \<Rightarrow> clip_script \<Rightarrow> store_config \<Rightarrow> int \<Rightarrow> filesystem
     \<Rightarrow> ((string + clip_result) \<times> event list \<times> filesystem) option" where
  "clip_coupons fuel hash s cfg user_id fs =
     (let t0 = [Log INFO (''Starting coupon clipping process for store: '' @ name cfg)]
      in case launch_error s of
           Some msg \<Rightarrow>
             Some (Inr \<lparr>success = False, store = name cfg, clipped_coupons = [], error = Some msg\<rparr>,
                   t0 @ [Log ERROR (''Failed to complete coupon clipping process: '' @ msg)], fs)
         | None \<Rightarrow>
             (case try_clip fuel hash s cfg user_id fs of
                None \<Rightarrow> None
              | Some r \<Rightarrow>
                  (let closed =
                         (case context_close_error s of
                            None \<Rightarrow> (fst r, fst (snd r))
                          | Some msg \<Rightarrow>
                              ((fst r)\<lparr>error := Some msg\<rparr>,
                               fst (snd r) @
                               [Log ERROR (''Failed to complete coupon clipping process: '' @ msg)]))
                   in case browser_close_error s of
                        Some msg \<Rightarrow> Some (Inl msg, t0 @ snd closed, snd (snd r))
                      | None \<Rightarrow>
                          Some (Inr (fst closed), t0 @ snd closed @ [Log INFO ''Browser closed''],
                                snd (snd r)))))"

subsection \<open>The offers clipped and verified\<close>

text \<open>
  The claim's words. An offer is clipped and verified when its button exists and does not
  show it clipped, and the page read after the click lists a coupon of that title that
  reports clipped. The offers of a run are those of its passes, pass after pass while the
  page has coupons and a button to load more.
\<close>

definition clipped_and_verified :: "coupon_page option reply \<Rightarrow> coupon \<Rightarrow> coupon_offer option" where
  "clipped_and_verified reply c =
     (case clip_btn c of
        None \<Rightarrow> None
      | Some b \<Rightarrow>
          (case offer c of
             None \<Rightarrow> None
           | Some ofr \<Rightarrow>
               (case reply of
                  Raises msg \<Rightarrow> None
                | Returns verify \<Rightarrow>
                    if button_exists b \<and> \<not> is_clipped b \<and>
                       reports_clipped verify (offer_title ofr) = Inr True
                    then Some ofr else None)))"

definition page_coupons :: "clip_script \<Rightarrow> nat \<Rightarrow> coupon list" where
  "page_coupons s i =
     (case listing s i of
        Raises msg \<Rightarrow> []
      | Returns page_result \<Rightarrow>
          (case (case page_result of None \<Rightarrow> None | Some p \<Rightarrow> coupon_section p) of
             None \<Rightarrow> []
           | Some sec \<Rightarrow> (case available_coupons sec of None \<Rightarrow> [] | Some cs \<Rightarrow> cs)))"

definition has_more :: "clip_script \<Rightarrow> nat \<Rightarrow> bool" where
  "has_more s i \<longleftrightarrow>
     page_coupons s i \<noteq> [] \<and>
     (case listing s i of
        Raises msg \<Rightarrow> False
      | Returns page_result \<Rightarrow>
          (case (case page_result of None \<Rightarrow> None | Some p \<Rightarrow> coupon_section p) of
             None \<Rightarrow> False
           | Some sec \<Rightarrow>
               (case pagination sec of None \<Rightarrow> False | Some pg \<Rightarrow> load_more_btn pg \<noteq> None)))"

fun verified_from :: "(nat \<Rightarrow> coupon_page option reply) \<Rightarrow> nat \<Rightarrow> coupon list \<Rightarrow> coupon_offer list" where
  "verified_from replies j [] = []"
| "verified_from replies j (c # cs) =
     (case clipped_and_verified (replies j) c of
        None \<Rightarrow> verified_from replies (Suc j) cs
      | Some ofr \<Rightarrow> ofr # verified_from replies (Suc j) cs)"

fun verified_offers :: "nat \<Rightarrow> clip_script \<Rightarrow> nat \<Rightarrow> coupon_offer list option" where
  "verified_offers 0 s i = None"
| "verified_offers (Suc fuel) s i =
     (let here = verified_from (recheck s i) 0 (page_coupons s i)
      in if has_more s i
         then (case verified_offers fuel s (Suc i) of
                 None \<Rightarrow> None
               | Some later \<Rightarrow> Some (here @ later))
         else Some here)"

text \<open>
  A run passes login and navigation when the browser starts, the store page opens, the
  session is acquired, from the cache or by a login whose session is then cached, and the
  navigation to the coupons succeeds.
\<close>

definition cached_session_valid ::
  "(string \<Rightarrow> int) \<Rightarrow> clip_script \<Rightarrow> store_config \<Rightarrow> int \<Rightarrow> filesystem \<Rightarrow> bool" where
  "cached_session_valid hash s cfg user_id fs \<longleftrightarrow>
     path_exists (session_file hash cfg user_id) fs \<and>
     (case load_state s of Raises msg \<Rightarrow> False | Returns state \<Rightarrow> True) \<and>
     signed_in (fst (wait_for_elements (session_check s) STORE_INFO_QUERY 0))"

definition login_passes :: "clip_script \<Rightarrow> store_config \<Rightarrow> bool" where
  "login_passes s cfg \<longleftrightarrow> fst (handle_login_flow (clip_login s) (credentials cfg))"

definition raised_text :: "'a reply \<Rightarrow> string option" where
  "raised_text r = (case r of Raises msg \<Rightarrow> Some msg | Returns x \<Rightarrow> None)"

definition passes_login_and_navigation ::
  "(string \<Rightarrow> int) \<Rightarrow> clip_script \<Rightarrow> store_config \<Rightarrow> int \<Rightarrow> filesystem \<Rightarrow> bool" where
  "passes_login_and_navigation hash s cfg user_id fs \<longleftrightarrow>
     launch_error s = None \<and> navigate_error s = None \<and>
     (cached_session_valid hash s cfg user_id fs \<or>
      login_passes s cfg \<and> raised_text (cache_state s) = None) \<and>
     fst (navigate_to_coupons s)"

subsection \<open>A page of five offers, for the examples\<close>

text \<open>
  Five offers A to E on one page with no button to load more. The clicks on A, C and E
  are confirmed by the page read after them; after the click on B the page still shows B
  unclipped, and after the click on D the page no longer lists D.
\<close>

definition example_offer :: "string \<Rightarrow> coupon_offer" where
  "example_offer t =
     \<lparr>offer_title = t, description = ''Save on '' @ t, savings = ''$1.00'',
      expiration = ''12/31'', terms = ''Limit 1''\<rparr>"

definition example_coupon :: "bool \<Rightarrow> string \<Rightarrow> coupon" where
  "example_coupon done t =
     \<lparr>offer = Some (example_offer t),
      clip_btn = Some \<lparr>button = plain_element, button_exists = True, is_clipped = done\<rparr>\<rparr>"

definition coupons_page :: "coupon list \<Rightarrow> coupon_page option reply" where
  "coupons_page cs =
     Returns (Some \<lparr>coupon_section =
       Some \<lparr>heading = True, available_coupons = Some cs,
             pagination = Some \<lparr>load_more_btn = None\<rparr>\<rparr>\<rparr>)"

definition page_with_clipped :: "string list \<Rightarrow> string list \<Rightarrow> coupon_page option reply" where
  "page_with_clipped titles done = coupons_page (map (\<lambda>t. example_coupon (t \<in> set done) t) titles)"

definition five_offers_script :: clip_script where
  "five_offers_script =
     \<lparr>launch_error = None,
      load_state = Returns (PDict []),
      navigate_error = None,
      session_check = (\<lambda>i. signed_out_header),
      clip_login = script_no_welcome,
      cache_state = Returns (PDict [(''cookies'', PList []), (''origins'', PList [])]),
      nav_reply = Returns (Some plain_element),
      arrival_reply = page_with_clipped [''A'', ''B'', ''C'', ''D'', ''E''] [],
      listing = (\<lambda>i. page_with_clipped [''A'', ''B'', ''C'', ''D'', ''E''] []),
      recheck = (\<lambda>i j.
        [page_with_clipped [''A'', ''B'', ''C'', ''D'', ''E''] [''A''],
         page_with_clipped [''A'', ''B'', ''C'', ''D'', ''E''] [''A''],
         page_with_clipped [''A'', ''B'', ''C'', ''D'', ''E''] [''A'', ''C''],
         page_with_clipped [''A'', ''B'', ''C'', ''E''] [''A'', ''C''],
         page_with_clipped [''A'', ''B'', ''C'', ''D'', ''E''] [''A'', ''C'', ''E'']] ! j),
      context_close_error = None,
      browser_close_error = None\<rparr>"

definition no_browser_script :: clip_script where
  "no_browser_script = five_offers_script\<lparr>launch_error := Some ''Executable does not exist''\<rparr>"


section \<open>Properties of the session cache\<close>

subsection \<open>The file system\<close>

lemma path_exists_read: "path_exists p fs = (read_file p fs \<noteq> None)"
  by (simp add: path_exists_def read_file_def split: option.splits)

lemma read_write_same:
  "map_of fs (fst p) \<noteq> None \<Longrightarrow> read_file p (write_file p c fs) = Some c"
  by (auto simp: read_file_def write_file_def update_conv' split: option.splits)

lemma read_write_other:
  "q \<noteq> p \<Longrightarrow> read_file q (write_file p c fs) = read_file q fs"
  by (cases p; cases q)
     (auto simp: read_file_def write_file_def update_conv' split: option.splits)

lemma read_remove_same: "read_file p (remove_file p fs) = None"
  by (auto simp: read_file_def remove_file_def update_conv' delete_conv' split: option.splits)

lemma read_remove_other:
  "q \<noteq> p \<Longrightarrow> read_file q (remove_file p fs) = read_file q fs"
  by (cases p; cases q)
     (auto simp: read_file_def remove_file_def update_conv' delete_conv' split: option.splits)

lemma dir_makedirs: "map_of (makedirs d fs) d \<noteq> None"
  by (auto simp: makedirs_def map_add_def)

lemma read_makedirs: "read_file p (makedirs d fs) = read_file p fs"
  by (auto simp: read_file_def makedirs_def map_add_def split: option.splits)

lemma dir_of_read: "read_file p fs = Some c \<Longrightarrow> map_of fs (fst p) \<noteq> None"
  by (auto simp: read_file_def split: option.splits)

lemma backup_of_neq: "backup_of p \<noteq> p"
  by (cases p) (simp add: backup_of_def)

subsection \<open>Saving\<close>

lemma save_session_dict:
  "save_session now flt u s session_data fs = (ok, data', fs') \<Longrightarrow>
     data' = AList.update ''_metadata'' (metadata now u s) session_data"
  by (auto simp: save_session_def Let_def split: if_splits)

lemma filter_update_other:
  "filter (\<lambda>e. fst e \<noteq> k) (AList.update k v al) = filter (\<lambda>e. fst e \<noteq> k) al"
  by (induction al) auto

lemma save_session_ok_iff:
  "fst (save_session now flt u s session_data fs) \<longleftrightarrow>
     flt \<noteq> OpenFails \<and> flt \<noteq> DumpFails \<and>
     serializable (PDict (AList.update ''_metadata'' (metadata now u s) session_data))"
  by (simp add: save_session_def Let_def)

lemma save_session_file:
  assumes "save_session now flt u s session_data fs = (True, data', fs')"
  shows "read_file (get_store_session_path u s) fs' = Some (JsonText (PDict data'))"
proof -
  let ?fs1 = "makedirs (get_user_session_dir u) fs"
  have dir: "map_of ?fs1 (fst (get_store_session_path u s)) \<noteq> None"
    by (simp add: get_store_session_path_def dir_makedirs)
  from assms have "fs' = write_file (get_store_session_path u s) (JsonText (PDict data')) ?fs1"
    by (auto simp: save_session_def Let_def split: if_splits)
  with dir show ?thesis
    by (simp add: read_write_same)
qed

text \<open>
  C10. \<^verbatim>\<open>save_session\<close> assigns into the dictionary it is given: whatever it returns, the
  caller's dictionary then has the entry \<^verbatim>\<open>_metadata\<close> with \<^verbatim>\<open>created_at\<close>, \<^verbatim>\<open>user_id\<close> and
  \<^verbatim>\<open>store_id\<close>, and its other entries are the ones it had, in their order.
\<close>

theorem save_session_mutates_caller_dict:
  assumes "save_session now flt u s session_data fs = (ok, data', fs')"
  shows "map_of data' ''_metadata'' =
           Some (PDict [(''created_at'', PIso now), (''user_id'', PInt u), (''store_id'', PInt s)])
       \<and> (\<forall>k. k \<noteq> ''_metadata'' \<longrightarrow> map_of data' k = map_of session_data k)
       \<and> filter (\<lambda>e. fst e \<noteq> ''_metadata'') data' =
           filter (\<lambda>e. fst e \<noteq> ''_metadata'') session_data"
proof -
  have d: "data' = AList.update ''_metadata'' (metadata now u s) session_data"
    using assms by (rule save_session_dict)
  have "map_of data' ''_metadata'' =
           Some (PDict [(''created_at'', PIso now), (''user_id'', PInt u), (''store_id'', PInt s)])"
    by (simp add: d update_conv' metadata_def)
  moreover have "\<forall>k. k \<noteq> ''_metadata'' \<longrightarrow> map_of data' k = map_of session_data k"
    by (simp add: d update_conv')
  moreover have "filter (\<lambda>e. fst e \<noteq> ''_metadata'') data' =
      filter (\<lambda>e. fst e \<noteq> ''_metadata'') session_data"
    unfolding d by (rule filter_update_other)
  ultimately show ?thesis by blast
qed

theorem save_session_mutates_caller_dict_witness:
  "save_session 5 NoFault 1 2 [(''cookies'', PList [])] [] =
     (True,
      [(''cookies'', PList []),
       (''_metadata'', PDict [(''created_at'', PIso 5), (''user_id'', PInt 1), (''store_id'', PInt 2)])],
      [(''1'', [(''store_2_session.json'',
          JsonText (PDict [(''cookies'', PList []),
            (''_metadata'',
             PDict [(''created_at'', PIso 5), (''user_id'', PInt 1), (''store_id'', PInt 2)])]))])])
   \<and> map_of [(''cookies'', PList []),
       (''_metadata'', PDict [(''created_at'', PIso 5), (''user_id'', PInt 1), (''store_id'', PInt 2)])]
       ''_metadata''
     = Some (PDict [(''created_at'', PIso 5), (''user_id'', PInt 1), (''store_id'', PInt 2)])"
proof -
  have e: "save_session 5 NoFault 1 2 [(''cookies'', PList [])] [] =
     (True,
      [(''cookies'', PList []),
       (''_metadata'', PDict [(''created_at'', PIso 5), (''user_id'', PInt 1), (''store_id'', PInt 2)])],
      [(''1'', [(''store_2_session.json'',
          JsonText (PDict [(''cookies'', PList []),
            (''_metadata'',
             PDict [(''created_at'', PIso 5), (''user_id'', PInt 1), (''store_id'', PInt 2)])]))])])"
    by code_simp
  from e save_session_mutates_caller_dict [OF e] show ?thesis
    by simp
qed

subsection \<open>Loading\<close>

lemma created_at_of_stamped:
  "created_at_of (PDict (AList.update ''_metadata'' (metadata now u s) session_data)) = Some now"
  by (simp add: update_conv' metadata_def)

lemma expired_7: "expired now created_at 7 = Some (now - created_at > 604800000000)"
  by (simp add: expired_def timedelta_days_def)

lemma load_session_fresh:
  assumes "read_file (get_store_session_path u s) fs = Some c"
    and "parse_session c = Some (doc, created_at)"
    and "now - created_at \<le> 604800000000"
  shows "load_session now u s fs = (Some doc, fs)"
  using assms by (simp add: load_session_def expired_7)

lemma load_session_stale:
  assumes "read_file (get_store_session_path u s) fs = Some c"
    and "parse_session c = Some (doc, created_at)"
    and "now - created_at > 604800000000"
  shows "load_session now u s fs = (None, remove_file (get_store_session_path u s) fs)"
  using assms by (simp add: load_session_def delete_session_def path_exists_read expired_7)

lemma load_session_absent:
  "read_file (get_store_session_path u s) fs = None \<Longrightarrow> load_session now u s fs = (None, fs)"
  by (simp add: load_session_def)

text \<open>
  C3. Saving and then loading within seven days does not return the state as it was
  passed: the document read back has the \<^verbatim>\<open>_metadata\<close> entry that \<^verbatim>\<open>save_session\<close> put into
  it. Here a state with the one entry \<^verbatim>\<open>cookies\<close> comes back with two entries.
\<close>

theorem save_then_load_counterexample:
  "save_session 0 NoFault 1 2 [(''cookies'', PList [])] [] =
     (True,
      [(''cookies'', PList []),
       (''_metadata'', PDict [(''created_at'', PIso 0), (''user_id'', PInt 1), (''store_id'', PInt 2)])],
      [(''1'', [(''store_2_session.json'',
          JsonText (PDict [(''cookies'', PList []),
            (''_metadata'',
             PDict [(''created_at'', PIso 0), (''user_id'', PInt 1), (''store_id'', PInt 2)])]))])])
   \<and> fst (load_session 0 1 2
        [(''1'', [(''store_2_session.json'',
          JsonText (PDict [(''cookies'', PList []),
            (''_metadata'',
             PDict [(''created_at'', PIso 0), (''user_id'', PInt 1), (''store_id'', PInt 2)])]))])])
       = Some (PDict [(''cookies'', PList []),
            (''_metadata'',
             PDict [(''created_at'', PIso 0), (''user_id'', PInt 1), (''store_id'', PInt 2)])])
   \<and> fst (load_session 0 1 2
        [(''1'', [(''store_2_session.json'',
          JsonText (PDict [(''cookies'', PList []),
            (''_metadata'',
             PDict [(''created_at'', PIso 0), (''user_id'', PInt 1), (''store_id'', PInt 2)])]))])])
       \<noteq> Some (PDict [(''cookies'', PList [])])"
  by code_simp

text \<open>
  C3 as amended. When \<^verbatim>\<open>save_session\<close> returns \<^verbatim>\<open>True\<close>, a load of the same key at most
  seven days after the save returns the state passed to \<^verbatim>\<open>save_session\<close> with its
  \<^verbatim>\<open>_metadata\<close> entry set to the stamp of the save, which is the caller's dictionary as the
  save left it, and leaves the file in place.
\<close>

theorem save_then_load_roundtrip:
  assumes "save_session now flt u s session_data fs = (True, data', fs')"
    and "now' - now \<le> 7 * 86400000000"
  shows "load_session now' u s fs' = (Some (PDict data'), fs')
       \<and> data' = AList.update ''_metadata'' (metadata now u s) session_data"
proof -
  have d: "data' = AList.update ''_metadata'' (metadata now u s) session_data"
    using assms(1) by (rule save_session_dict)
  have stored: "read_file (get_store_session_path u s) fs' = Some (JsonText (PDict data'))"
    using assms(1) by (rule save_session_file)
  have parsed: "parse_session (JsonText (PDict data')) = Some (PDict data', now)"
    unfolding d parse_session_def by (simp add: created_at_of_stamped del: created_at_of.simps)
  from assms(2) have "now' - now \<le> 604800000000"
    by simp
  with stored parsed have "load_session now' u s fs' = (Some (PDict data'), fs')"
    by (rule load_session_fresh)
  with d show ?thesis by simp
qed

theorem save_then_load_roundtrip_witness:
  "save_session 0 NoFault 1 2 [(''cookies'', PList [])] [] =
     (True,
      [(''cookies'', PList []),
       (''_metadata'', PDict [(''created_at'', PIso 0), (''user_id'', PInt 1), (''store_id'', PInt 2)])],
      [(''1'', [(''store_2_session.json'',
          JsonText (PDict [(''cookies'', PList []),
            (''_metadata'',
             PDict [(''created_at'', PIso 0), (''user_id'', PInt 1), (''store_id'', PInt 2)])]))])])
   \<and> (604800000000::int) - 0 \<le> 7 * 86400000000
   \<and> load_session 604800000000 1 2
        [(''1'', [(''store_2_session.json'',
          JsonText (PDict [(''cookies'', PList []),
            (''_metadata'',
             PDict [(''created_at'', PIso 0), (''user_id'', PInt 1), (''store_id'', PInt 2)])]))])]
     = (Some (PDict [(''cookies'', PList []),
            (''_metadata'',
             PDict [(''created_at'', PIso 0), (''user_id'', PInt 1), (''store_id'', PInt 2)])]),
        [(''1'', [(''store_2_session.json'',
          JsonText (PDict [(''cookies'', PList []),
            (''_metadata'',
             PDict [(''created_at'', PIso 0), (''user_id'', PInt 1), (''store_id'', PInt 2)])]))])])"
proof -
  have e: "save_session 0 NoFault 1 2 [(''cookies'', PList [])] [] =
     (True,
      [(''cookies'', PList []),
       (''_metadata'', PDict [(''created_at'', PIso 0), (''user_id'', PInt 1), (''store_id'', PInt 2)])],
      [(''1'', [(''store_2_session.json'',
          JsonText (PDict [(''cookies'', PList []),
            (''_metadata'',
             PDict [(''created_at'', PIso 0), (''user_id'', PInt 1), (''store_id'', PInt 2)])]))])])"
    by code_simp
  have t: "(604800000000::int) - 0 \<le> 7 * 86400000000"
    by simp
  from save_then_load_roundtrip [OF e t] have l: "load_session 604800000000 1 2
        [(''1'', [(''store_2_session.json'',
          JsonText (PDict [(''cookies'', PList []),
            (''_metadata'',
             PDict [(''created_at'', PIso 0), (''user_id'', PInt 1), (''store_id'', PInt 2)])]))])]
     = (Some (PDict [(''cookies'', PList []),
            (''_metadata'',
             PDict [(''created_at'', PIso 0), (''user_id'', PInt 1), (''store_id'', PInt 2)])]),
        [(''1'', [(''store_2_session.json'',
          JsonText (PDict [(''cookies'', PList []),
            (''_metadata'',
             PDict [(''created_at'', PIso 0), (''user_id'', PInt 1), (''store_id'', PInt 2)])]))])])"
    by (rule conjunct1)
  from e t l show ?thesis
    by (intro conjI)
qed

text \<open>
  C4. A stored record whose \<^verbatim>\<open>created_at\<close> lies more than seven days before the load is
  not returned and its file is removed, every other file staying as it was; after that
  every load of the key, at any time, returns nothing. A record of seven days or less is
  returned and the file system is left as it is.
\<close>

theorem load_session_hard_expiry:
  assumes "read_file (get_store_session_path u s) fs = Some c"
    and "parse_session c = Some (doc, created_at)"
  shows "(now - created_at > 7 * 86400000000 \<longrightarrow>
            fst (load_session now u s fs) = None
          \<and> read_file (get_store_session_path u s) (snd (load_session now u s fs)) = None
          \<and> (\<forall>q. q \<noteq> get_store_session_path u s \<longrightarrow>
                 read_file q (snd (load_session now u s fs)) = read_file q fs)
          \<and> (\<forall>now'. fst (load_session now' u s (snd (load_session now u s fs))) = None))
       \<and> (now - created_at \<le> 7 * 86400000000 \<longrightarrow> load_session now u s fs = (Some doc, fs))"
proof (intro conjI impI)
  assume "7 * 86400000000 < now - created_at"
  then have old: "now - created_at > 604800000000"
    by simp
  let ?p = "get_store_session_path u s"
  have l: "load_session now u s fs = (None, remove_file ?p fs)"
    using assms old by (rule load_session_stale)
  show "fst (load_session now u s fs) = None"
    by (simp add: l)
  show gone: "read_file ?p (snd (load_session now u s fs)) = None"
    by (simp add: l read_remove_same)
  show "\<forall>q. q \<noteq> ?p \<longrightarrow> read_file q (snd (load_session now u s fs)) = read_file q fs"
    by (simp add: l read_remove_other)
  show "\<forall>now'. fst (load_session now' u s (snd (load_session now u s fs))) = None"
    using gone by (simp add: load_session_absent)
next
  assume "now - created_at \<le> 7 * 86400000000"
  then have "now - created_at \<le> 604800000000"
    by simp
  with assms show "load_session now u s fs = (Some doc, fs)"
    by (rule load_session_fresh)
qed

theorem load_session_hard_expiry_witness:
  "read_file (get_store_session_path 1 2) example_fs = Some (JsonText (example_record 0))
   \<and> parse_session (JsonText (example_record 0)) = Some (example_record 0, 0)
   \<and> (7 * 86400000000 :: int) < 604800000001 - 0
   \<and> fst (load_session 604800000001 1 2 example_fs) = None
   \<and> read_file (get_store_session_path 1 2) (snd (load_session 604800000001 1 2 example_fs)) = None
   \<and> fst (load_session 0 1 2 (snd (load_session 604800000001 1 2 example_fs))) = None
   \<and> (604800000000 :: int) - 0 \<le> 7 * 86400000000
   \<and> load_session 604800000000 1 2 example_fs = (Some (example_record 0), example_fs)"
proof -
  have r: "read_file (get_store_session_path 1 2) example_fs = Some (JsonText (example_record 0))"
    by code_simp
  have p: "parse_session (JsonText (example_record 0)) = Some (example_record 0, 0)"
    by code_simp
  have old: "(7 * 86400000000 :: int) < 604800000001 - 0"
    and young: "(604800000000 :: int) - 0 \<le> 7 * 86400000000"
    by simp_all
  from load_session_hard_expiry [OF r p, of 604800000001] old
  have "fst (load_session 604800000001 1 2 example_fs) = None
      \<and> read_file (get_store_session_path 1 2) (snd (load_session 604800000001 1 2 example_fs)) = None
      \<and> fst (load_session 0 1 2 (snd (load_session 604800000001 1 2 example_fs))) = None"
    by blast
  moreover from load_session_hard_expiry [OF r p, of 604800000000] young
  have "load_session 604800000000 1 2 example_fs = (Some (example_record 0), example_fs)"
    by blast
  ultimately show ?thesis
    using r p old young by blast
qed

subsection \<open>Rotation\<close>

text \<open>
  What \<^verbatim>\<open>rotate_session\<close> does on a key that holds a record \<open>c\<close>, by the outcome of the
  write. When the write succeeds the new document is stored and no backup is left. When
  \<^verbatim>\<open>open\<close> fails the record is as before. When \<^verbatim>\<open>json.dump\<close> fails, the session file
  is left unparsable and the prior record survives in the backup file only.
\<close>

lemma rotate_session_unfold:
  assumes "read_file (get_store_session_path u s) fs = Some c" and "flt \<noteq> CopyFails"
  shows "rotate_session now flt u s new_data fs =
     (let fs1 = write_file (backup_of (get_store_session_path u s)) c fs;
          r = save_session now flt u s new_data fs1
      in (fst r, fst (snd r),
          if fst r then remove_file (backup_of (get_store_session_path u s)) (snd (snd r))
          else snd (snd r)))"
proof -
  let ?p = "get_store_session_path u s"
  let ?fs1 = "write_file (backup_of ?p) c fs"
  have dir: "map_of fs (fst (backup_of ?p)) \<noteq> None"
    using dir_of_read [OF assms(1)] by (simp add: backup_of_def)
  have bak1: "read_file (backup_of ?p) ?fs1 = Some c"
    using dir by (rule read_write_same)
  have "fst (get_store_session_path u s) = get_user_session_dir u"
    by (simp add: get_store_session_path_def)
  with dir_of_read [OF assms(1)] have mk: "makedirs (get_user_session_dir u) ?fs1 = ?fs1"
    using dir by (auto simp: makedirs_def write_file_def update_conv' backup_of_def
        split: option.splits)
  have dir1: "map_of ?fs1 (fst ?p) \<noteq> None"
    using dir by (auto simp: write_file_def update_conv' backup_of_def split: option.splits)
  have bak2: "path_exists (backup_of ?p) (snd (snd (save_session now flt u s new_data ?fs1)))"
    using bak1 dir1
    by (auto simp: save_session_def Let_def mk path_exists_read read_write_other backup_of_neq)
  obtain ok d' fs2 where sv: "save_session now flt u s new_data ?fs1 = (ok, d', fs2)"
    by (cases "save_session now flt u s new_data ?fs1") auto
  with bak2 have "path_exists (backup_of ?p) fs2"
    by simp
  with assms sv show ?thesis
    by (simp add: rotate_session_def Let_def path_exists_read)
qed

lemma rotate_session_write_ok:
  assumes "read_file (get_store_session_path u s) fs = Some c"
    and "flt = NoFault"
    and "serializable (PDict (AList.update ''_metadata'' (metadata now u s) new_data))"
  shows "fst (rotate_session now flt u s new_data fs)
       \<and> read_file (get_store_session_path u s) (snd (snd (rotate_session now flt u s new_data fs)))
           = Some (JsonText (PDict (AList.update ''_metadata'' (metadata now u s) new_data)))
       \<and> read_file (backup_of (get_store_session_path u s))
             (snd (snd (rotate_session now flt u s new_data fs))) = None"
proof -
  let ?p = "get_store_session_path u s"
  let ?fs1 = "write_file (backup_of ?p) c fs"
  let ?d = "AList.update ''_metadata'' (metadata now u s) new_data"
  obtain fs2 where sv: "save_session now flt u s new_data ?fs1 = (True, ?d, fs2)"
    using assms(2,3) by (simp add: save_session_def Let_def)
  have stored: "read_file ?p fs2 = Some (JsonText (PDict ?d))"
    using sv by (rule save_session_file)
  have "rotate_session now flt u s new_data fs = (True, ?d, remove_file (backup_of ?p) fs2)"
    using assms(1,2) sv by (simp add: rotate_session_unfold)
  with stored show ?thesis
    by (simp add: read_remove_same read_remove_other backup_of_neq [symmetric])
qed

lemma rotate_session_open_fails:
  assumes "read_file (get_store_session_path u s) fs = Some c"
  shows "\<not> fst (rotate_session now OpenFails u s new_data fs)
       \<and> read_file (get_store_session_path u s)
            (snd (snd (rotate_session now OpenFails u s new_data fs))) = Some c"
proof -
  let ?p = "get_store_session_path u s"
  have "read_file ?p (makedirs (get_user_session_dir u) (write_file (backup_of ?p) c fs)) = Some c"
    using assms by (simp add: read_makedirs read_write_other backup_of_neq [symmetric])
  then show ?thesis
    using assms by (simp add: rotate_session_unfold save_session_def Let_def)
qed

lemma rotate_session_dump_fails:
  assumes "read_file (get_store_session_path u s) fs = Some c"
    and "flt = DumpFails \<or> flt = NoFault \<and>
         \<not> serializable (PDict (AList.update ''_metadata'' (metadata now u s) new_data))"
  shows "\<not> fst (rotate_session now flt u s new_data fs)
       \<and> read_file (get_store_session_path u s)
            (snd (snd (rotate_session now flt u s new_data fs))) = Some Unparsable
       \<and> read_file (backup_of (get_store_session_path u s))
            (snd (snd (rotate_session now flt u s new_data fs))) = Some c
       \<and> fst (load_session now' u s (snd (snd (rotate_session now flt u s new_data fs)))) = None"
proof -
  let ?p = "get_store_session_path u s"
  let ?fs1 = "makedirs (get_user_session_dir u) (write_file (backup_of ?p) c fs)"
  let ?fs2 = "write_file ?p Unparsable ?fs1"
  have "map_of fs (fst ?p) \<noteq> None"
    using assms(1) by (rule dir_of_read)
  then have dir1: "map_of ?fs1 (fst ?p) \<noteq> None"
    by (simp add: get_store_session_path_def dir_makedirs)
  have flt: "flt \<noteq> CopyFails" "flt \<noteq> OpenFails"
    using assms(2) by auto
  have rot: "rotate_session now flt u s new_data fs =
      (False, AList.update ''_metadata'' (metadata now u s) new_data, ?fs2)"
    using assms flt by (auto simp: rotate_session_unfold save_session_def Let_def)
  have cur: "read_file ?p ?fs2 = Some Unparsable"
    using dir1 by (rule read_write_same)
  have "map_of fs (fst (backup_of ?p)) \<noteq> None"
    using dir_of_read [OF assms(1)] by (simp add: backup_of_def)
  then have bak: "read_file (backup_of ?p) ?fs2 = Some c"
    by (simp add: read_write_other backup_of_neq read_makedirs read_write_same)
  have "fst (load_session now' u s ?fs2) = None"
    using cur by (simp add: load_session_def parse_session_def)
  with rot cur bak show ?thesis by simp
qed

text \<open>
  C2. The record of user 1 and store 2 is valid. A rotation whose \<^verbatim>\<open>json.dump\<close> fails, by
  an input/output error or by a value that has no JSON form, returns \<^verbatim>\<open>False\<close> and leaves
  the session file unparsable: the record is no longer readable, a load returns nothing,
  and the prior content is only in the backup file, which is never moved back.
\<close>

theorem rotate_session_failed_write_example:
  "read_file (get_store_session_path 1 2) example_fs = Some (JsonText (example_record 0))
   \<and> fst (load_session 10 1 2 example_fs) = Some (example_record 0)
   \<and> rotate_session 10 DumpFails 1 2 [(''cookies'', PList [PStr ''sid=new''])] example_fs =
       (False,
        [(''cookies'', PList [PStr ''sid=new'']), (''_metadata'', metadata 10 1 2)],
        [(''1'', [(''store_2_session.json'', Unparsable),
                  (''store_2_session.json.bak'', JsonText (example_record 0))])])
   \<and> rotate_session 10 NoFault 1 2 [(''cookies'', PObject)] example_fs =
       (False,
        [(''cookies'', PObject), (''_metadata'', metadata 10 1 2)],
        [(''1'', [(''store_2_session.json'', Unparsable),
                  (''store_2_session.json.bak'', JsonText (example_record 0))])])
   \<and> read_file (get_store_session_path 1 2)
        [(''1'', [(''store_2_session.json'', Unparsable),
                  (''store_2_session.json.bak'', JsonText (example_record 0))])] = Some Unparsable
   \<and> fst (load_session 10 1 2
        [(''1'', [(''store_2_session.json'', Unparsable),
                  (''store_2_session.json.bak'', JsonText (example_record 0))])]) = None"
  by code_simp

subsection \<open>Cleanup\<close>

lemma map_of_filter_distinct:
  "distinct (map fst al) \<Longrightarrow>
     map_of (filter P al) k =
       (case map_of al k of None \<Rightarrow> None | Some v \<Rightarrow> if P (k, v) then Some v else None)"
proof (induction al)
  case Nil
  then show ?case by simp
next
  case (Cons e al)
  then show ?case
    by (cases e) (auto split: option.splits simp: map_of_eq_None_iff image_iff)
qed

lemma length_delete_present:
  "distinct (map fst al) \<Longrightarrow> map_of al k = Some v \<Longrightarrow> Suc (length (AList.delete k al)) = length al"
proof (induction al)
  case Nil
  then show ?case by simp
next
  case (Cons e al)
  then show ?case
    by (cases e) (auto simp: image_iff dest: map_of_SomeD)
qed

text \<open>The inner loop keeps the listed files that are not expired, and counts the others.\<close>

lemma cleanup_files_lookup:
  assumes "distinct names"
  shows "map_of (fst (cleanup_files clock days names (dir, n))) k =
     (case map_of dir k of None \<Rightarrow> None
      | Some c \<Rightarrow> if k \<in> set names \<and> record_expired (clock k) days c then None else Some c)"
  using assms
proof (induction names arbitrary: dir n)
  case Nil
  then show ?case by (simp split: option.splits)
next
  case (Cons name names)
  then have IH: "\<And>dir n. map_of (fst (cleanup_files clock days names (dir, n))) k =
     (case map_of dir k of None \<Rightarrow> None
      | Some c \<Rightarrow> if k \<in> set names \<and> record_expired (clock k) days c then None else Some c)"
    and fresh: "name \<notin> set names"
    by simp_all
  show ?case
  proof (cases "map_of dir name")
    case None
    then show ?thesis
      using fresh by (auto simp: IH split: option.splits)
  next
    case (Some c)
    then show ?thesis
      using fresh by (auto simp: IH delete_conv' split: option.splits)
  qed
qed

lemma cleanup_files_distinct:
  "distinct (map fst dir) \<Longrightarrow> distinct (map fst (fst (cleanup_files clock days names (dir, n))))"
proof (induction names arbitrary: dir n)
  case Nil
  then show ?case by simp
next
  case (Cons name names)
  then show ?case
    by (auto simp: distinct_delete split: option.splits)
qed

lemma cleanup_files_count:
  "distinct (map fst dir) \<Longrightarrow>
     snd (cleanup_files clock days names (dir, n)) + length (fst (cleanup_files clock days names (dir, n)))
       = n + length dir"
proof (induction names arbitrary: dir n)
  case Nil
  then show ?case by simp
next
  case (Cons name names)
  show ?case
  proof (cases "map_of dir name")
    case None
    then show ?thesis
      using Cons by simp
  next
    case (Some c)
    show ?thesis
    proof (cases "record_expired (clock name) days c")
      case True
      have "distinct (map fst (AList.delete name dir))"
        using Cons.prems by (rule distinct_delete)
      from Cons.IH [OF this, of "n + 1"] length_delete_present [OF Cons.prems Some]
      show ?thesis
        using Some True by simp
    next
      case False
      then show ?thesis
        using Some Cons by simp
    qed
  qed
qed

lemma cleanup_files_fst:
  "fst (cleanup_files clock days names (dir, n)) = fst (cleanup_files clock days names (dir, m))"
proof (induction names arbitrary: dir n m)
  case Nil
  then show ?case by simp
next
  case (Cons name names)
  show ?case
  proof (cases "map_of dir name")
    case None
    then show ?thesis
      using Cons.IH [of dir n m] by simp
  next
    case (Some c)
    then show ?thesis
      using Cons.IH [of dir n m] Cons.IH [of "AList.delete name dir" "n + 1" "m + 1"] by simp
  qed
qed

lemma files_total_update:
  "distinct (map fst fs) \<Longrightarrow> map_of fs d = Some dir \<Longrightarrow>
     files_total (AList.update d dir' fs) + length dir = files_total fs + length dir'"
proof (induction fs)
  case Nil
  then show ?case by simp
next
  case (Cons e fs)
  then show ?case
    by (cases e) (auto simp: files_total_def image_iff dest: map_of_SomeD)
qed

lemma files_total_delete:
  "distinct (map fst fs) \<Longrightarrow> map_of fs d = Some dir \<Longrightarrow>
     files_total (AList.delete d fs) + length dir = files_total fs"
proof (induction fs)
  case Nil
  then show ?case by simp
next
  case (Cons e fs)
  then show ?case
    by (cases e) (auto simp: files_total_def image_iff dest: map_of_SomeD)
qed

lemma set_update_subset: "set (AList.update k v al) \<subseteq> insert (k, v) (set al)"
  by (induction al) auto

lemma wf_fs_update:
  "wf_fs fs \<Longrightarrow> distinct (map fst dir') \<Longrightarrow> wf_fs (AList.update d dir' fs)"
  unfolding wf_fs_def using set_update_subset [of d dir' fs]
  by (auto simp: distinct_update)

lemma wf_fs_delete: "wf_fs fs \<Longrightarrow> wf_fs (AList.delete d fs)"
proof -
  assume wf: "wf_fs fs"
  have "set (AList.delete d fs) \<subseteq> set fs"
    by (auto simp: AList.delete_eq)
  with wf show ?thesis
    unfolding wf_fs_def by (auto simp: distinct_delete)
qed

lemma wf_fs_dir: "wf_fs fs \<Longrightarrow> map_of fs d = Some dir \<Longrightarrow> distinct (map fst dir)"
  unfolding wf_fs_def by (auto dest: map_of_SomeD simp: image_iff)

text \<open>The outer loop: what a directory name maps to afterwards, and the count.\<close>

lemma cleanup_dirs_lookup:
  assumes "distinct ds"
  shows "map_of (fst (cleanup_dirs clock days ds (fs, n))) d =
     (if d \<in> set ds
      then (case map_of fs d of None \<Rightarrow> None
            | Some dir \<Rightarrow>
                if fst (cleanup_files (clock d) days (filter glob_match (map fst dir)) (dir, 0)) = []
                then None
                else Some (fst (cleanup_files (clock d) days (filter glob_match (map fst dir)) (dir, 0))))
      else map_of fs d)"
  using assms
proof (induction ds arbitrary: fs n)
  case Nil
  then show ?case by simp
next
  case (Cons a ds)
  then have fresh: "a \<notin> set ds" and dist: "distinct ds"
    by simp_all
  note IH = Cons.IH [OF dist]
  show ?case
  proof (cases "map_of fs a")
    case None
    then show ?thesis
      using fresh by (auto simp: IH)
  next
    case (Some dir)
    have z: "fst (cleanup_files (clock a) days (filter glob_match (map fst dir)) (dir, n)) =
        fst (cleanup_files (clock a) days (filter glob_match (map fst dir)) (dir, 0))"
      by (rule cleanup_files_fst)
    show ?thesis
      using fresh Some by (auto simp: IH Let_def z update_conv' delete_conv')
  qed
qed

lemma cleanup_dirs_count:
  "wf_fs fs \<Longrightarrow>
     snd (cleanup_dirs clock days ds (fs, n)) + files_total (fst (cleanup_dirs clock days ds (fs, n)))
       = n + files_total fs"
proof (induction ds arbitrary: fs n)
  case Nil
  then show ?case by simp
next
  case (Cons a ds)
  show ?case
  proof (cases "map_of fs a")
    case None
    then show ?thesis
      using Cons by simp
  next
    case (Some dir)
    let ?r = "cleanup_files (clock a) days (filter glob_match (map fst dir)) (dir, n)"
    let ?fs1 = "if fst ?r = [] then AList.delete a fs else AList.update a (fst ?r) fs"
    have ddir: "distinct (map fst dir)"
      using Cons.prems Some by (rule wf_fs_dir)
    have dfs: "distinct (map fst fs)"
      using Cons.prems by (simp add: wf_fs_def)
    have inner: "snd ?r + length (fst ?r) = n + length dir"
      using ddir by (rule cleanup_files_count)
    have wf1: "wf_fs ?fs1"
      using Cons.prems cleanup_files_distinct [OF ddir] by (simp add: wf_fs_update wf_fs_delete)
    have total: "files_total ?fs1 + length dir = files_total fs + length (fst ?r)"
      using files_total_update [OF dfs Some] files_total_delete [OF dfs Some] by simp
    have "snd (cleanup_dirs clock days ds (?fs1, snd ?r))
        + files_total (fst (cleanup_dirs clock days ds (?fs1, snd ?r))) = snd ?r + files_total ?fs1"
      using wf1 by (rule Cons.IH)
    with inner total show ?thesis
      using Some by (simp add: Let_def)
  qed
qed

lemma record_expired_in_range:
  "- 999999999 \<le> days \<Longrightarrow> days \<le> 999999999 \<Longrightarrow>
     record_expired now days c = age_exceeds now days c"
  by (simp add: record_expired_def age_exceeds_def expired_def timedelta_days_def
      split: option.splits)

lemma record_expired_out_of_range:
  "days < - 999999999 \<or> 999999999 < days \<Longrightarrow> \<not> record_expired now days c"
  by (auto simp: record_expired_def expired_def timedelta_days_def split: option.splits)

lemma cleaned_dir_lookup:
  assumes "distinct (map fst dir)"
  shows "map_of (fst (cleanup_files clock days (filter glob_match (map fst dir)) (dir, n))) k =
     (case map_of dir k of None \<Rightarrow> None
      | Some c \<Rightarrow> if glob_match k \<and> record_expired (clock k) days c then None else Some c)"
proof -
  have "distinct (filter glob_match (map fst dir))"
    using assms by (rule distinct_filter)
  then have "map_of (fst (cleanup_files clock days (filter glob_match (map fst dir)) (dir, n))) k =
     (case map_of dir k of None \<Rightarrow> None
      | Some c \<Rightarrow> if k \<in> set (filter glob_match (map fst dir)) \<and> record_expired (clock k) days c
                  then None else Some c)"
    by (rule cleanup_files_lookup)
  moreover have "k \<in> set (filter glob_match (map fst dir)) \<longleftrightarrow> glob_match k"
    if "map_of dir k = Some c" for c
    using map_of_SomeD [OF that] by force
  ultimately show ?thesis
    by (auto split: option.splits)
qed

lemma empty_iff_no_lookup: "al = [] \<longleftrightarrow> (\<forall>k. map_of al k = None)"
  by (cases al) (auto simp: map_of_eq_None_iff)

lemma all_entries_iff_lookup:
  "distinct (map fst al) \<Longrightarrow> (\<forall>e \<in> set al. P (fst e) (snd e)) \<longleftrightarrow> (\<forall>k v. map_of al k = Some v \<longrightarrow> P k v)"
  by (auto dest: map_of_SomeD)

lemma cleanup_read_file:
  assumes "wf_fs fs"
  shows "read_file (d, k) (snd (cleanup_expired_sessions clock days fs)) =
     (case read_file (d, k) fs of None \<Rightarrow> None
      | Some c \<Rightarrow> if glob_match k \<and> record_expired (clock d k) days c then None else Some c)"
proof (cases "map_of fs d")
  case None
  then have "d \<notin> set (map fst fs)"
    by (simp add: map_of_eq_None_iff)
  with None show ?thesis
    using assms
    by (simp add: cleanup_expired_sessions_def Let_def read_file_def cleanup_dirs_lookup wf_fs_def)
next
  case (Some dir)
  let ?dir' = "fst (cleanup_files (clock d) days (filter glob_match (map fst dir)) (dir, 0))"
  have "d \<in> set (map fst fs)"
    using map_of_SomeD [OF Some] by force
  then have "map_of (fst (cleanup_dirs clock days (map fst fs) (fs, 0))) d =
      (if ?dir' = [] then None else Some ?dir')"
    using assms Some by (simp add: cleanup_dirs_lookup wf_fs_def)
  then have "read_file (d, k) (snd (cleanup_expired_sessions clock days fs)) = map_of ?dir' k"
    by (simp add: cleanup_expired_sessions_def Let_def read_file_def)
  moreover have "distinct (map fst dir)"
    using assms Some by (rule wf_fs_dir)
  ultimately show ?thesis
    using Some by (simp add: cleaned_dir_lookup read_file_def)
qed

lemma cleanup_partition:
  assumes "wf_fs fs" and "map_of fs d = Some dir"
  shows "map_of (snd (cleanup_expired_sessions clock days fs)) d = None \<longleftrightarrow>
     (\<forall>e \<in> set dir. glob_match (fst e) \<and> record_expired (clock d (fst e)) days (snd e))"
proof -
  let ?dir' = "fst (cleanup_files (clock d) days (filter glob_match (map fst dir)) (dir, 0))"
  have ddir: "distinct (map fst dir)"
    using assms by (rule wf_fs_dir)
  have "d \<in> set (map fst fs)"
    using map_of_SomeD [OF assms(2)] by force
  then have "map_of (snd (cleanup_expired_sessions clock days fs)) d =
      (if ?dir' = [] then None else Some ?dir')"
    using assms by (simp add: cleanup_expired_sessions_def Let_def cleanup_dirs_lookup wf_fs_def)
  then have "map_of (snd (cleanup_expired_sessions clock days fs)) d = None \<longleftrightarrow> ?dir' = []"
    by simp
  also have "\<dots> \<longleftrightarrow> (\<forall>k. map_of ?dir' k = None)"
    by (rule empty_iff_no_lookup)
  also have "\<dots> \<longleftrightarrow>
      (\<forall>k c. map_of dir k = Some c \<longrightarrow> glob_match k \<and> record_expired (clock d k) days c)"
    by (auto simp: cleaned_dir_lookup [OF ddir] split: option.splits if_splits)
  also have "\<dots> \<longleftrightarrow>
      (\<forall>e \<in> set dir. glob_match (fst e) \<and> record_expired (clock d (fst e)) days (snd e))"
    using all_entries_iff_lookup [OF ddir,
        of "\<lambda>k c. glob_match k \<and> record_expired (clock d k) days c"] by simp
  finally show ?thesis .
qed

lemma cleanup_no_new_partition:
  assumes "wf_fs fs" and "map_of fs d = None"
  shows "map_of (snd (cleanup_expired_sessions clock days fs)) d = None"
proof -
  have "d \<notin> set (map fst fs)"
    using assms(2) by (simp add: map_of_eq_None_iff)
  then show ?thesis
    using assms
    by (simp add: cleanup_expired_sessions_def Let_def cleanup_dirs_lookup wf_fs_def)
qed

lemma cleanup_count:
  assumes "wf_fs fs"
  shows "fst (cleanup_expired_sessions clock days fs)
       + files_total (snd (cleanup_expired_sessions clock days fs)) = files_total fs"
  using cleanup_dirs_count [OF assms, of clock days "map fst fs" 0]
  by (simp add: cleanup_expired_sessions_def Let_def)

text \<open>
  C5. As stated the claim fails for a threshold outside the range of \<^verbatim>\<open>timedelta\<close>: with
  \<^verbatim>\<open>max_age_days = -1000000000\<close> the age of the stored record exceeds the threshold, yet
  line 107 raises OverflowError, the handler of line 111 skips the file, and nothing is
  removed.
\<close>

theorem cleanup_expired_sessions_counterexample:
  "read_file (''1'', ''store_2_session.json'') example_fs = Some (JsonText (example_record 0))
   \<and> glob_match ''store_2_session.json''
   \<and> age_exceeds 10 (- 1000000000) (JsonText (example_record 0))
   \<and> cleanup_expired_sessions (\<lambda>d k. 10) (- 1000000000) example_fs = (0, example_fs)"
  by code_simp

text \<open>
  C5 as amended. For a threshold that \<^verbatim>\<open>timedelta\<close> accepts, the pass removes exactly the
  files named \<^verbatim>\<open>store_*_session.json\<close> whose age exceeds the threshold at the reading of the
  clock taken for them, and every other file keeps its content; a directory is gone
  afterwards if and only if each of its files was removed (also when it had none), and no
  directory appears; the count returned is the number of files removed.
\<close>

theorem cleanup_expired_sessions_exact:
  assumes "wf_fs fs" and "- 999999999 \<le> max_age_days" and "max_age_days \<le> 999999999"
  shows "(\<forall>d k. read_file (d, k) (snd (cleanup_expired_sessions clock max_age_days fs)) =
            (case read_file (d, k) fs of None \<Rightarrow> None
             | Some c \<Rightarrow> if glob_match k \<and> age_exceeds (clock d k) max_age_days c
                         then None else Some c))
       \<and> (\<forall>d dir. map_of fs d = Some dir \<longrightarrow>
            (map_of (snd (cleanup_expired_sessions clock max_age_days fs)) d = None \<longleftrightarrow>
             (\<forall>e \<in> set dir. glob_match (fst e) \<and> age_exceeds (clock d (fst e)) max_age_days (snd e))))
       \<and> (\<forall>d. map_of fs d = None \<longrightarrow>
            map_of (snd (cleanup_expired_sessions clock max_age_days fs)) d = None)
       \<and> fst (cleanup_expired_sessions clock max_age_days fs)
           + files_total (snd (cleanup_expired_sessions clock max_age_days fs)) = files_total fs"
proof -
  note age = record_expired_in_range [OF assms(2,3)]
  have "\<forall>d k. read_file (d, k) (snd (cleanup_expired_sessions clock max_age_days fs)) =
            (case read_file (d, k) fs of None \<Rightarrow> None
             | Some c \<Rightarrow> if glob_match k \<and> age_exceeds (clock d k) max_age_days c
                         then None else Some c)"
    using cleanup_read_file [OF assms(1)] by (simp add: age split: option.splits)
  moreover have "\<forall>d dir. map_of fs d = Some dir \<longrightarrow>
            (map_of (snd (cleanup_expired_sessions clock max_age_days fs)) d = None \<longleftrightarrow>
             (\<forall>e \<in> set dir. glob_match (fst e) \<and> age_exceeds (clock d (fst e)) max_age_days (snd e)))"
    using cleanup_partition [OF assms(1)] by (simp add: age)
  moreover have "\<forall>d. map_of fs d = None \<longrightarrow>
            map_of (snd (cleanup_expired_sessions clock max_age_days fs)) d = None"
    using cleanup_no_new_partition [OF assms(1)] by simp
  moreover have "fst (cleanup_expired_sessions clock max_age_days fs)
           + files_total (snd (cleanup_expired_sessions clock max_age_days fs)) = files_total fs"
    using assms(1) by (rule cleanup_count)
  ultimately show ?thesis
    by blast
qed

theorem cleanup_expired_sessions_exact_witness:
  "wf_fs example_cache \<and> - 999999999 \<le> (7::int) \<and> (7::int) \<le> 999999999
   \<and> cleanup_expired_sessions (\<lambda>d k. 700000000000) 7 example_cache =
       (2, [(''1'', [(''store_3_session.json'', JsonText (example_record 100000000000))]),
            (''3'', [(''store_2_session.json'', Unparsable)])])
   \<and> read_file (''1'', ''store_2_session.json'')
        (snd (cleanup_expired_sessions (\<lambda>d k. 700000000000) 7 example_cache)) = None
   \<and> read_file (''1'', ''store_3_session.json'')
        (snd (cleanup_expired_sessions (\<lambda>d k. 700000000000) 7 example_cache))
       = Some (JsonText (example_record 100000000000))
   \<and> map_of (snd (cleanup_expired_sessions (\<lambda>d k. 700000000000) 7 example_cache)) ''2'' = None
   \<and> fst (cleanup_expired_sessions (\<lambda>d k. 700000000000) 7 example_cache)
       + files_total (snd (cleanup_expired_sessions (\<lambda>d k. 700000000000) 7 example_cache))
       = files_total example_cache"
proof -
  have wf: "wf_fs example_cache"
    by code_simp
  have lo: "- 999999999 \<le> (7::int)" and hi: "(7::int) \<le> 999999999"
    by simp_all
  note T = cleanup_expired_sessions_exact [OF wf lo hi, of "\<lambda>d k. 700000000000"]
  have run: "cleanup_expired_sessions (\<lambda>d k. 700000000000) 7 example_cache =
       (2, [(''1'', [(''store_3_session.json'', JsonText (example_record 100000000000))]),
            (''3'', [(''store_2_session.json'', Unparsable)])])"
    by code_simp
  have r2: "read_file (''1'', ''store_2_session.json'') example_cache
      = Some (JsonText (example_record 0))"
    and g2: "glob_match ''store_2_session.json''"
    and a2: "age_exceeds 700000000000 7 (JsonText (example_record 0))"
    and r3: "read_file (''1'', ''store_3_session.json'') example_cache
      = Some (JsonText (example_record 100000000000))"
    and a3: "\<not> age_exceeds 700000000000 7 (JsonText (example_record 100000000000))"
    and d2: "map_of example_cache ''2'' = Some [(''store_2_session.json'', JsonText (example_record 0))]"
    by code_simp+
  from T have "read_file (''1'', ''store_2_session.json'')
        (snd (cleanup_expired_sessions (\<lambda>d k. 700000000000) 7 example_cache)) = None"
    using r2 g2 a2 by simp
  moreover from T have "read_file (''1'', ''store_3_session.json'')
        (snd (cleanup_expired_sessions (\<lambda>d k. 700000000000) 7 example_cache))
       = Some (JsonText (example_record 100000000000))"
    using r3 a3 by simp
  moreover from T have
    "map_of (snd (cleanup_expired_sessions (\<lambda>d k. 700000000000) 7 example_cache)) ''2'' = None"
    using d2 g2 a2 by simp
  moreover from T have "fst (cleanup_expired_sessions (\<lambda>d k. 700000000000) 7 example_cache)
       + files_total (snd (cleanup_expired_sessions (\<lambda>d k. 700000000000) 7 example_cache))
       = files_total example_cache"
    by blast
  ultimately show ?thesis
    using wf lo hi run by blast
qed

section \<open>Properties of the login flows\<close>

subsection \<open>Traces\<close>

lemma fst_prepend [simp]: "fst (prepend t r) = fst r"
  by (simp add: prepend_def)

lemma snd_prepend [simp]: "snd (prepend t r) = t @ snd r"
  by (simp add: prepend_def)

lemma fst_failed [simp]: "fst (failed msg) = False"
  by (simp add: failed_def)

lemma snd_failed [simp]: "snd (failed msg) = [Log ERROR msg]"
  by (simp add: failed_def)

lemma fst_raised [simp]: "fst (raised msg) = False"
  by (simp add: raised_def)

lemma snd_raised [simp]: "snd (raised msg) = [Log ERROR (''Error during login flow: '' @ msg)]"
  by (simp add: raised_def)

lemma touches_password_simps [simp]:
  "touches_password (Log l m) = False"
  "touches_password (Query q) = False"
  "touches_password (Click t) = (t = SubmitButton)"
  "touches_password (Fill t v) = (t = PasswordBox)"
  "touches_password (WaitReady n) = False"
  "touches_password (Timeout n) = False"
  "touches_password (Goto u) = False"
  by (simp_all add: touches_password_def)

lemma wait_and_click_events:
  "e \<in> set (wait_and_click el t) \<Longrightarrow>
     e = Timeout 500 \<or> e = Click t \<or> (\<exists>msg. e = Log WARNING msg)"
  by (auto simp: wait_and_click_def split: option.splits)

lemma wait_and_click_no_password:
  "e \<in> set (wait_and_click el t) \<Longrightarrow> touches_password e \<Longrightarrow> t = SubmitButton"
  by (auto dest!: wait_and_click_events)

lemma wait_and_click_no_query: "Query q \<notin> set (wait_and_click el t)"
  by (auto dest!: wait_and_click_events)

lemma wait_for_elements_events:
  "e \<in> set (snd (wait_for_elements replies q retry_count)) \<Longrightarrow>
     e = Query q \<or> e = Timeout 1000 \<or> (\<exists>msg. e = Log WARNING msg)"
proof (induction replies q retry_count rule: wait_for_elements.induct)
  case (1 replies q retry_count)
  then show ?case
    by (subst (asm) (3) wait_for_elements.simps)
       (auto split: if_splits reply.splits option.splits simp: Let_def)
qed

subsection \<open>The password modal never appears\<close>

lemma fails_untouched_prepend:
  "fails_untouched r \<Longrightarrow> \<forall>e \<in> set t. \<not> touches_password e \<Longrightarrow> fails_untouched (prepend t r)"
  by (auto simp: fails_untouched_def list_ex_iff)

lemma fails_untouched_failed [simp]: "fails_untouched (failed msg)"
  by (simp add: fails_untouched_def)

lemma fails_untouched_raised [simp]: "fails_untouched (raised msg)"
  by (simp add: fails_untouched_def)

lemma fails_modal_not_found_prepend:
  assumes "fails_modal_not_found r"
    and "\<forall>e \<in> set t. \<not> touches_password e \<and> e \<noteq> Query PASSWORD_MODAL_QUERY"
  shows "fails_modal_not_found (prepend t r)"
proof -
  have "fails_untouched (prepend t r)"
    using assms by (simp add: fails_modal_not_found_def fails_untouched_prepend)
  moreover have "last (t @ snd r) = last (snd r)" if "snd r \<noteq> []"
    using that by simp
  ultimately show ?thesis
    using assms by (auto simp: fails_modal_not_found_def)
qed

lemma fails_modal_not_found_failed [simp]: "fails_modal_not_found (failed msg)"
  by (simp add: fails_modal_not_found_def)

lemma fails_modal_not_found_raised [simp]: "fails_modal_not_found (raised msg)"
  by (simp add: fails_modal_not_found_def)

lemma fails_modal_not_found_header_missing [simp]: "fails_modal_not_found (header_missing s)"
  by (auto simp: fails_modal_not_found_def fails_untouched_def header_missing_def
      split: reply.splits)

lemma password_stage_missing:
  "password_reply s = Returns None \<Longrightarrow>
     password_stage s creds =
       (False, [Query PASSWORD_MODAL_QUERY, Log ERROR ''Could not find password modal''])"
  by (simp add: password_stage_def prepend_def failed_def)

lemma password_stage_fails:
  "password_reply s = Returns None \<Longrightarrow> fails_modal_not_found (password_stage s creds)"
  by (simp add: password_stage_missing fails_modal_not_found_def fails_untouched_def)

lemma login_options_stage_fails:
  assumes "password_reply s = Returns None"
  shows "fails_modal_not_found (login_options_stage s creds)"
  unfolding login_options_stage_def
  using password_stage_fails [OF assms, of creds]
  by (auto split: reply.splits option.splits intro!: fails_modal_not_found_prepend
      simp: wait_and_click_no_query dest: wait_and_click_no_password)

lemma welcome_stage_fails:
  assumes "password_reply s = Returns None"
  shows "fails_modal_not_found (welcome_stage s creds)"
  unfolding welcome_stage_def
  using login_options_stage_fails [OF assms, of creds]
  by (auto split: reply.splits option.splits intro!: fails_modal_not_found_prepend
      simp: wait_and_click_no_query dest: wait_and_click_no_password)

lemma handle_login_flow_fails:
  assumes "password_reply s = Returns None"
  shows "fails_modal_not_found (handle_login_flow s creds)"
  unfolding handle_login_flow_def Let_def
  using welcome_stage_fails [OF assms, of creds]
  by (auto split: option.splits intro!: fails_modal_not_found_prepend
      simp: wait_and_click_no_query dest: wait_and_click_no_password
      dest!: wait_for_elements_events)

lemma discovery_password_stage_fails:
  "password_reply s = Returns None \<Longrightarrow> fails_untouched (discovery_password_stage s creds)"
  by (simp add: discovery_password_stage_def fails_untouched_def)

lemma password_option_harmless:
  "\<forall>e \<in> set (discovery_password_option m). \<not> touches_password e"
  by (auto simp: discovery_password_option_def split: option.splits
      dest: wait_and_click_no_password)

lemma discovery_login_stage_fails:
  assumes "password_reply s = Returns None"
  shows "fails_untouched (discovery_login_stage s creds)"
  unfolding discovery_login_stage_def
  using discovery_password_stage_fails [OF assms, of creds] password_option_harmless
  by (auto split: reply.splits option.splits intro!: fails_untouched_prepend)

lemma discovery_welcome_stage_fails:
  assumes "password_reply s = Returns None"
  shows "fails_untouched (discovery_welcome_stage s creds)"
  unfolding discovery_welcome_stage_def
  using discovery_login_stage_fails [OF assms, of creds]
  by (auto split: reply.splits option.splits intro!: fails_untouched_prepend
      dest: wait_and_click_no_password)

lemma discovery_login_flow_fails:
  assumes "password_reply s = Returns None"
  shows "fails_untouched (discovery_login_flow s creds)"
  unfolding discovery_login_flow_def
  using discovery_welcome_stage_fails [OF assms, of creds]
  by (auto split: reply.splits option.splits intro!: fails_untouched_prepend
      dest: wait_and_click_no_password)

subsection \<open>The welcome modal is optional\<close>

lemma welcome_stage_absent:
  "welcome_reply s = Returns None \<Longrightarrow>
     welcome_stage s creds = prepend [Query INITIAL_MODAL_QUERY] (login_options_stage s creds)"
  by (simp add: welcome_stage_def)

lemma discovery_welcome_stage_absent:
  "welcome_reply s = Returns None \<Longrightarrow>
     discovery_welcome_stage s creds =
       prepend [Query INITIAL_MODAL_QUERY] (discovery_login_stage s creds)"
  by (simp add: discovery_welcome_stage_def)

lemma login_options_stage_queries:
  "Query LOGIN_OPTIONS_MODAL_QUERY \<in> set (snd (login_options_stage s creds))"
  by (simp add: login_options_stage_def)

lemma discovery_login_stage_queries:
  "Query LOGIN_OPTIONS_MODAL_QUERY \<in> set (snd (discovery_login_stage s creds))"
  by (simp add: discovery_login_stage_def)

lemma handle_login_flow_proceeds:
  assumes "welcome_reply s = Returns None"
    and "Query INITIAL_MODAL_QUERY \<in> set (snd (handle_login_flow s creds))"
  shows "Query LOGIN_OPTIONS_MODAL_QUERY \<in> set (snd (handle_login_flow s creds))"
  using assms(2) login_options_stage_queries [of s creds]
  unfolding handle_login_flow_def Let_def welcome_stage_absent [OF assms(1)]
  by (auto split: option.splits simp: header_missing_def split: reply.splits
      dest!: wait_for_elements_events wait_and_click_events)

lemma discovery_login_flow_proceeds:
  assumes "welcome_reply s = Returns None"
  shows "fst (discovery_login_flow s creds) \<longrightarrow>
         Query LOGIN_OPTIONS_MODAL_QUERY \<in> set (snd (discovery_login_flow s creds))"
  using discovery_login_stage_queries [of s creds]
  unfolding discovery_login_flow_def discovery_welcome_stage_absent [OF assms]
  by (auto split: option.splits reply.splits)

text \<open>
  C7. The flow of the discovery service (store_discovery.py, lines 218 to 273) departs
  from the claim on a page that shows the header and the login options and never the
  password modal: the flow asks for the password modal, finds none, and returns
  \<^verbatim>\<open>False\<close> at line 269 without logging any error. On the same page the flow of the
  clipping service (coupon_service.py, lines 186 to 243) ends on the error
  \<^verbatim>\<open>Could not find password modal\<close>, as the claim has it.
\<close>

theorem discovery_login_flow_silent_without_password_modal:
  "password_reply script_no_password_modal = Returns None
   \<and> discovery_login_flow script_no_password_modal (Some example_credentials) =
       (False,
        [Query STORE_INFO_QUERY, Log INFO ''Clicking initial sign in button'',
         Timeout 500, Click HeaderSignIn, WaitReady 500,
         Query INITIAL_MODAL_QUERY, Query LOGIN_OPTIONS_MODAL_QUERY,
         Log INFO ''Found login options modal'',
         Fill EmailBox (Some ''user@example.com''), Log INFO ''Entered email'',
         Timeout 500, Click PasswordOption, WaitReady 500,
         Log INFO ''Selected password login option'',
         Query PASSWORD_MODAL_QUERY])
   \<and> logs (snd (discovery_login_flow script_no_password_modal (Some example_credentials))) =
       [(INFO, ''Clicking initial sign in button''), (INFO, ''Found login options modal''),
        (INFO, ''Entered email''), (INFO, ''Selected password login option'')]
   \<and> last (snd (handle_login_flow script_no_password_modal (Some example_credentials))) =
       Log ERROR ''Could not find password modal''"
  by code_simp

text \<open>
  What holds of both flows. On a page whose password modal never appears both login flows
  fail, and neither fills the password box nor clicks the submit button; the flow of the
  clipping service, once it has asked for the password modal, ends on the error that the
  modal was not found. On a page with no welcome modal the welcome step is its query
  alone: the flow goes on to the login options without logging anything.
\<close>

theorem password_modal_missing_is_fatal:
  "(password_reply s = Returns None \<longrightarrow>
      \<not> fst (handle_login_flow s creds)
    \<and> (\<forall>v. Fill PasswordBox v \<notin> set (snd (handle_login_flow s creds)))
    \<and> Click SubmitButton \<notin> set (snd (handle_login_flow s creds))
    \<and> (Query PASSWORD_MODAL_QUERY \<in> set (snd (handle_login_flow s creds)) \<longrightarrow>
         last (snd (handle_login_flow s creds)) = Log ERROR ''Could not find password modal'')
    \<and> \<not> fst (discovery_login_flow s creds)
    \<and> (\<forall>v. Fill PasswordBox v \<notin> set (snd (discovery_login_flow s creds)))
    \<and> Click SubmitButton \<notin> set (snd (discovery_login_flow s creds)))
 \<and> (welcome_reply s = Returns None \<longrightarrow>
      welcome_stage s creds = prepend [Query INITIAL_MODAL_QUERY] (login_options_stage s creds)
    \<and> discovery_welcome_stage s creds =
        prepend [Query INITIAL_MODAL_QUERY] (discovery_login_stage s creds)
    \<and> (Query INITIAL_MODAL_QUERY \<in> set (snd (handle_login_flow s creds)) \<longrightarrow>
         Query LOGIN_OPTIONS_MODAL_QUERY \<in> set (snd (handle_login_flow s creds))))"
proof (intro conjI impI)
  assume pm: "password_reply s = Returns None"
  have c: "fails_modal_not_found (handle_login_flow s creds)"
    using pm by (rule handle_login_flow_fails)
  have d: "fails_untouched (discovery_login_flow s creds)"
    using pm by (rule discovery_login_flow_fails)
  show "\<not> fst (handle_login_flow s creds)"
    using c by (simp add: fails_modal_not_found_def fails_untouched_def)
  show "\<forall>v. Fill PasswordBox v \<notin> set (snd (handle_login_flow s creds))"
    using c by (force simp: fails_modal_not_found_def fails_untouched_def list_ex_iff)
  show "Click SubmitButton \<notin> set (snd (handle_login_flow s creds))"
    using c by (force simp: fails_modal_not_found_def fails_untouched_def list_ex_iff)
  show "last (snd (handle_login_flow s creds)) = Log ERROR ''Could not find password modal''"
    if "Query PASSWORD_MODAL_QUERY \<in> set (snd (handle_login_flow s creds))"
    using c that by (simp add: fails_modal_not_found_def)
  show "\<not> fst (discovery_login_flow s creds)"
    using d by (simp add: fails_untouched_def)
  show "\<forall>v. Fill PasswordBox v \<notin> set (snd (discovery_login_flow s creds))"
    using d by (force simp: fails_untouched_def list_ex_iff)
  show "Click SubmitButton \<notin> set (snd (discovery_login_flow s creds))"
    using d by (force simp: fails_untouched_def list_ex_iff)
next
  assume w: "welcome_reply s = Returns None"
  show "welcome_stage s creds = prepend [Query INITIAL_MODAL_QUERY] (login_options_stage s creds)"
    using w by (rule welcome_stage_absent)
  show "discovery_welcome_stage s creds =
      prepend [Query INITIAL_MODAL_QUERY] (discovery_login_stage s creds)"
    using w by (rule discovery_welcome_stage_absent)
  show "Query LOGIN_OPTIONS_MODAL_QUERY \<in> set (snd (handle_login_flow s creds))"
    if "Query INITIAL_MODAL_QUERY \<in> set (snd (handle_login_flow s creds))"
    using w that by (rule handle_login_flow_proceeds)
qed

theorem password_modal_missing_is_fatal_witness:
  "password_reply script_no_password_modal = Returns None
   \<and> welcome_reply script_no_password_modal = Returns None
   \<and> handle_login_flow script_no_password_modal (Some example_credentials) =
       (False,
        [Log INFO ''Waiting for initial page load...'', WaitReady 2000,
         Query STORE_INFO_QUERY, Log INFO ''Clicking initial sign in button'',
         Timeout 500, Click HeaderSignIn, WaitReady 2000,
         Query INITIAL_MODAL_QUERY, Query LOGIN_OPTIONS_MODAL_QUERY,
         Log INFO ''Found login options modal'',
         Fill EmailBox (Some ''user@example.com''), Log INFO ''Entered email'',
         Timeout 500, Click PasswordOption, WaitReady 2000,
         Log INFO ''Selected password login option'', Query PASSWORD_MODAL_QUERY,
         Log ERROR ''Could not find password modal''])
   \<and> Query PASSWORD_MODAL_QUERY
       \<in> set (snd (handle_login_flow script_no_password_modal (Some example_credentials)))
   \<and> last (snd (handle_login_flow script_no_password_modal (Some example_credentials)))
       = Log ERROR ''Could not find password modal''
   \<and> \<not> fst (discovery_login_flow script_no_password_modal (Some example_credentials))
   \<and> welcome_reply script_no_welcome = Returns None
   \<and> fst (handle_login_flow script_no_welcome (Some example_credentials))
   \<and> Query INITIAL_MODAL_QUERY
       \<in> set (snd (handle_login_flow script_no_welcome (Some example_credentials)))
   \<and> Query LOGIN_OPTIONS_MODAL_QUERY
       \<in> set (snd (handle_login_flow script_no_welcome (Some example_credentials)))"
proof -
  have pm: "password_reply script_no_password_modal = Returns None"
    and w1: "welcome_reply script_no_password_modal = Returns None"
    and w2: "welcome_reply script_no_welcome = Returns None"
    by (simp_all add: script_no_password_modal_def script_no_welcome_def)
  have run: "handle_login_flow script_no_password_modal (Some example_credentials) =
       (False,
        [Log INFO ''Waiting for initial page load...'', WaitReady 2000,
         Query STORE_INFO_QUERY, Log INFO ''Clicking initial sign in button'',
         Timeout 500, Click HeaderSignIn, WaitReady 2000,
         Query INITIAL_MODAL_QUERY, Query LOGIN_OPTIONS_MODAL_QUERY,
         Log INFO ''Found login options modal'',
         Fill EmailBox (Some ''user@example.com''), Log INFO ''Entered email'',
         Timeout 500, Click PasswordOption, WaitReady 2000,
         Log INFO ''Selected password login option'', Query PASSWORD_MODAL_QUERY,
         Log ERROR ''Could not find password modal''])"
    by code_simp
  have asked: "Query PASSWORD_MODAL_QUERY
       \<in> set (snd (handle_login_flow script_no_password_modal (Some example_credentials)))"
    by (simp add: run)
  have ok: "fst (handle_login_flow script_no_welcome (Some example_credentials))"
    and reached: "Query INITIAL_MODAL_QUERY
       \<in> set (snd (handle_login_flow script_no_welcome (Some example_credentials)))"
    by code_simp+
  note A = password_modal_missing_is_fatal
    [of script_no_password_modal "Some example_credentials"]
  note B = password_modal_missing_is_fatal [of script_no_welcome "Some example_credentials"]
  from A pm asked
  have "last (snd (handle_login_flow script_no_password_modal (Some example_credentials)))
       = Log ERROR ''Could not find password modal''"
    and "\<not> fst (discovery_login_flow script_no_password_modal (Some example_credentials))"
    by blast+
  moreover from B w2 reached
  have "Query LOGIN_OPTIONS_MODAL_QUERY
       \<in> set (snd (handle_login_flow script_no_welcome (Some example_credentials)))"
    by blast
  ultimately show ?thesis
    using pm w1 w2 run asked ok reached by blast
qed


subsection \<open>Verification after the submit, in the clipping service\<close>

lemma verify_loop_done:
  "5 \<le> n \<Longrightarrow>
     verify_login_loop s n = failed ''Failed to verify login completion after maximum retries''"
  by (subst verify_login_loop.simps) simp

lemma verify_loop_pending:
  "n < 5 \<Longrightarrow> on_login_page (verify_url s n) \<Longrightarrow>
     verify_login_loop s n =
       prepend [WaitReady 2000,
                Log WARNING (''Still on login page after '' @ str_nat (n + 1) @ '' attempts''),
                Timeout 1000]
         (verify_login_loop s (n + 1))"
  by (subst verify_login_loop.simps) (simp add: prepend_def)

lemma verify_loop_breaks:
  "n < 5 \<Longrightarrow> breaks s n \<Longrightarrow>
     \<exists>msg. verify_login_loop s n =
       (False, [WaitReady 2000, Query STORE_INFO_QUERY,
                Log ERROR (''Error during login flow: '' @ msg)])"
  by (subst verify_login_loop.simps)
     (auto simp: breaks_def prepend_def raised_def split: reply.splits)

lemma verify_loop_converges:
  "n < 5 \<Longrightarrow> converges s n \<Longrightarrow>
     verify_login_loop s n =
       (True, [WaitReady 2000, Query STORE_INFO_QUERY,
               Log INFO ''Login successful - sign in button no longer present''])"
  by (subst verify_login_loop.simps)
     (auto simp: converges_def signed_in_def prepend_def split: reply.splits option.splits)

lemma verify_loop_retries:
  "n < 5 \<Longrightarrow> \<not> on_login_page (verify_url s n) \<Longrightarrow> \<not> converges s n \<Longrightarrow> \<not> breaks s n \<Longrightarrow>
     \<exists>w. verify_login_loop s n =
       prepend [WaitReady 2000, Query STORE_INFO_QUERY, Log WARNING w, Timeout 1000]
         (verify_login_loop s (n + 1))"
  by (subst verify_login_loop.simps)
     (auto simp: converges_def breaks_def signed_in_def prepend_def
       split: reply.splits option.splits)

lemma verify_loop_cases:
  assumes "n < 5"
  obtains (pending) "on_login_page (verify_url s n)" "\<not> converges s n" "\<not> breaks s n"
    | (breaks) "breaks s n" "\<not> converges s n"
    | (converges) "converges s n" "\<not> breaks s n"
    | (retries) "\<not> on_login_page (verify_url s n)" "\<not> converges s n" "\<not> breaks s n"
  by (cases "on_login_page (verify_url s n)"; cases "verify_reply s n")
     (auto simp: converges_def breaks_def)

lemma first_converging_step:
  "(\<exists>i. n \<le> i \<and> i < (5::nat) \<and> C i \<and> (\<forall>j. n \<le> j \<and> j < i \<longrightarrow> \<not> B j)) \<longleftrightarrow>
     (n < 5 \<and> C n) \<or>
     (\<not> B n \<and> (\<exists>i. Suc n \<le> i \<and> i < 5 \<and> C i \<and> (\<forall>j. Suc n \<le> j \<and> j < i \<longrightarrow> \<not> B j)))"
  (is "?L \<longleftrightarrow> ?R")
proof
  assume ?L
  then obtain i where i: "n \<le> i" "i < 5" "C i" "\<forall>j. n \<le> j \<and> j < i \<longrightarrow> \<not> B j"
    by blast
  show ?R
  proof (cases "i = n")
    case True
    with i show ?thesis by simp
  next
    case False
    with i have "Suc n \<le> i" "\<not> B n"
      by auto
    with i show ?thesis
      by (intro disjI2 conjI exI [of _ i]) auto
  qed
next
  assume ?R
  then show ?L
  proof
    assume "n < 5 \<and> C n"
    then show ?L
      by (intro exI [of _ n]) auto
  next
    assume r: "\<not> B n \<and> (\<exists>i. Suc n \<le> i \<and> i < 5 \<and> C i \<and> (\<forall>j. Suc n \<le> j \<and> j < i \<longrightarrow> \<not> B j))"
    then obtain i where i: "Suc n \<le> i" "i < 5" "C i" "\<forall>j. Suc n \<le> j \<and> j < i \<longrightarrow> \<not> B j"
      by blast
    have "\<not> B j" if "n \<le> j" "j < i" for j
    proof (cases "j = n")
      case True
      with r show ?thesis by simp
    next
      case False
      with that have "Suc n \<le> j" by simp
      with i that show ?thesis by simp
    qed
    with i show ?L
      by (intro exI [of _ i]) auto
  qed
qed

lemma verify_loop_success_iff:
  "fst (verify_login_loop s n) \<longleftrightarrow>
     (\<exists>i. n \<le> i \<and> i < 5 \<and> converges s i \<and> (\<forall>j. n \<le> j \<and> j < i \<longrightarrow> \<not> breaks s j))"
proof (induction "5 - n" arbitrary: n)
  case 0
  then have "5 \<le> n" by simp
  then show ?case
    by (auto simp: verify_loop_done)
next
  case (Suc k)
  then have n: "n < 5" and k: "k = 5 - Suc n"
    by simp_all
  note IH = Suc.hyps(1) [OF k]
  note step = first_converging_step [of n "converges s" "breaks s"]
  from n show ?case
  proof (cases rule: verify_loop_cases [of n s])
    case pending
    then show ?thesis
      using n IH by (simp add: verify_loop_pending step)
  next
    case breaks
    from verify_loop_breaks [OF n breaks(1)] obtain msg where
      "verify_login_loop s n = (False, [WaitReady 2000, Query STORE_INFO_QUERY,
                Log ERROR (''Error during login flow: '' @ msg)])" ..
    with breaks show ?thesis
      by (simp add: step)
  next
    case converges
    then show ?thesis
      using n by (simp add: verify_loop_converges step)
  next
    case retries
    from verify_loop_retries [OF n retries] obtain w where
      "verify_login_loop s n =
         prepend [WaitReady 2000, Query STORE_INFO_QUERY, Log WARNING w, Timeout 1000]
           (verify_login_loop s (n + 1))" ..
    with retries show ?thesis
      using n IH by (simp add: step)
  qed
qed

lemma attempts_append: "attempts (t @ u) = attempts t + attempts u"
  by (simp add: attempts_def)

lemma verify_loop_attempts: "attempts (snd (verify_login_loop s n)) \<le> 5 - n"
proof (induction "5 - n" arbitrary: n)
  case 0
  then have "5 \<le> n" by simp
  then show ?case
    by (simp add: verify_loop_done attempts_def)
next
  case (Suc k)
  then have n: "n < 5" and k: "k = 5 - Suc n"
    by simp_all
  note IH = Suc.hyps(1) [OF k]
  from n show ?case
  proof (cases rule: verify_loop_cases [of n s])
    case pending
    then show ?thesis
      using n IH by (simp add: verify_loop_pending attempts_append) (simp add: attempts_def)
  next
    case breaks
    from verify_loop_breaks [OF n breaks(1)] obtain msg where
      "verify_login_loop s n = (False, [WaitReady 2000, Query STORE_INFO_QUERY,
                Log ERROR (''Error during login flow: '' @ msg)])" ..
    then show ?thesis
      using n by (simp add: attempts_def)
  next
    case converges
    then show ?thesis
      using n by (simp add: verify_loop_converges attempts_def)
  next
    case retries
    from verify_loop_retries [OF n retries] obtain w where
      "verify_login_loop s n =
         prepend [WaitReady 2000, Query STORE_INFO_QUERY, Log WARNING w, Timeout 1000]
           (verify_login_loop s (n + 1))" ..
    then show ?thesis
      using n IH by (simp add: attempts_append) (simp add: attempts_def)
  qed
qed

lemma spaced_after_timeout: "spaced t \<Longrightarrow> spaced (Timeout 1000 # t)"
  by (cases t) simp_all

lemma verify_loop_spaced: "spaced (snd (verify_login_loop s n))"
proof (induction "5 - n" arbitrary: n)
  case 0
  then have "5 \<le> n" by simp
  then show ?case
    by (simp add: verify_loop_done)
next
  case (Suc k)
  then have n: "n < 5" and k: "k = 5 - Suc n"
    by simp_all
  note IH = spaced_after_timeout [OF Suc.hyps(1) [OF k]]
  from n show ?case
  proof (cases rule: verify_loop_cases [of n s])
    case pending
    then show ?thesis
      using n IH by (simp add: verify_loop_pending)
  next
    case breaks
    from verify_loop_breaks [OF n breaks(1)] obtain msg where
      "verify_login_loop s n = (False, [WaitReady 2000, Query STORE_INFO_QUERY,
                Log ERROR (''Error during login flow: '' @ msg)])" ..
    then show ?thesis
      by simp
  next
    case converges
    then show ?thesis
      using n by (simp add: verify_loop_converges)
  next
    case retries
    from verify_loop_retries [OF n retries] obtain w where
      "verify_login_loop s n =
         prepend [WaitReady 2000, Query STORE_INFO_QUERY, Log WARNING w, Timeout 1000]
           (verify_login_loop s (n + 1))" ..
    then show ?thesis
      using n IH by simp
  qed
qed

lemma verify_loop_timeout:
  assumes "\<forall>i. n \<le> i \<and> i < 5 \<longrightarrow> \<not> converges s i \<and> \<not> breaks s i"
  shows "snd (verify_login_loop s n) \<noteq> [] \<and>
         last (snd (verify_login_loop s n)) =
           Log ERROR ''Failed to verify login completion after maximum retries''"
  using assms
proof (induction "5 - n" arbitrary: n)
  case 0
  then have "5 \<le> n" by simp
  then show ?case
    by (simp add: verify_loop_done)
next
  case (Suc k)
  then have n: "n < 5" and k: "k = 5 - Suc n"
    by simp_all
  have "\<forall>i. Suc n \<le> i \<and> i < 5 \<longrightarrow> \<not> converges s i \<and> \<not> breaks s i"
    using Suc.prems by simp
  note IH = Suc.hyps(1) [OF k this]
  have here: "\<not> converges s n" "\<not> breaks s n"
    using Suc.prems n by simp_all
  from n show ?case
  proof (cases rule: verify_loop_cases [of n s])
    case pending
    then show ?thesis
      using n IH by (simp add: verify_loop_pending)
  next
    case breaks
    with here show ?thesis by simp
  next
    case converges
    with here show ?thesis by simp
  next
    case retries
    from verify_loop_retries [OF n retries] obtain w where
      "verify_login_loop s n =
         prepend [WaitReady 2000, Query STORE_INFO_QUERY, Log WARNING w, Timeout 1000]
           (verify_login_loop s (n + 1))" ..
    then show ?thesis
      using n IH by simp
  qed
qed

text \<open>
  The verification of the clipping service: at most five attempts, each but the first
  directly after a wait of 1000 ms; an attempt on a login URL does not converge; the
  verification succeeds exactly when an attempt converges before any header query raises;
  when no attempt converges and none raises, it ends on the timeout error.
\<close>

theorem clip_login_verification:
  "attempts (snd (verify_login_loop s 0)) \<le> 5
   \<and> spaced (snd (verify_login_loop s 0))
   \<and> (\<forall>i. on_login_page (verify_url s i) \<longrightarrow> \<not> converges s i)
   \<and> (fst (verify_login_loop s 0) \<longleftrightarrow>
        (\<exists>i. i < 5 \<and> converges s i \<and> (\<forall>j. j < i \<longrightarrow> \<not> breaks s j)))
   \<and> ((\<forall>i. i < 5 \<longrightarrow> \<not> converges s i \<and> \<not> breaks s i) \<longrightarrow>
        \<not> fst (verify_login_loop s 0) \<and>
        last (snd (verify_login_loop s 0)) =
          Log ERROR ''Failed to verify login completion after maximum retries'')"
proof (intro conjI allI impI)
  show "attempts (snd (verify_login_loop s 0)) \<le> 5"
    using verify_loop_attempts [of s 0] by simp
  show "spaced (snd (verify_login_loop s 0))"
    by (rule verify_loop_spaced)
  show "\<not> converges s i" if "on_login_page (verify_url s i)" for i
    using that by (simp add: converges_def)
  show "fst (verify_login_loop s 0) \<longleftrightarrow>
        (\<exists>i. i < 5 \<and> converges s i \<and> (\<forall>j. j < i \<longrightarrow> \<not> breaks s j))"
    using verify_loop_success_iff [of s 0] by simp
next
  assume none: "\<forall>i. i < 5 \<longrightarrow> \<not> converges s i \<and> \<not> breaks s i"
  then show "\<not> fst (verify_login_loop s 0)"
    using verify_loop_success_iff [of s 0] by auto
  from none show "last (snd (verify_login_loop s 0)) =
      Log ERROR ''Failed to verify login completion after maximum retries''"
    using verify_loop_timeout [of 0 s] by simp
qed

lemma script_wrong_password_attempt:
  "\<not> converges script_wrong_password i \<and> \<not> breaks script_wrong_password i"
  by (simp add: converges_def breaks_def script_wrong_password_def script_no_welcome_def
      signed_out_header_def signed_in_def)

theorem clip_login_verification_witness:
  "on_login_page ''https://www.kroger.com/SignIn?next=/''
   \<and> \<not> converges (script_no_welcome\<lparr>verify_url := (\<lambda>i. ''https://www.kroger.com/SignIn?next=/'')\<rparr>) 0
   \<and> converges script_no_welcome 0
   \<and> fst (verify_login_loop script_no_welcome 0)
   \<and> \<not> fst (verify_login_loop script_wrong_password 0)
   \<and> last (snd (verify_login_loop script_wrong_password 0)) =
       Log ERROR ''Failed to verify login completion after maximum retries''
   \<and> attempts (snd (verify_login_loop script_wrong_password 0)) = 5"
proof -
  let ?s = "script_no_welcome\<lparr>verify_url := (\<lambda>i. ''https://www.kroger.com/SignIn?next=/'')\<rparr>"
  have url: "on_login_page (verify_url ?s 0)"
    by code_simp
  have url': "on_login_page ''https://www.kroger.com/SignIn?next=/''"
    by code_simp
  have conv: "converges script_no_welcome 0"
    by code_simp
  have five: "attempts (snd (verify_login_loop script_wrong_password 0)) = 5"
    by code_simp
  note A = clip_login_verification [of ?s]
  note B = clip_login_verification [of script_no_welcome]
  note C = clip_login_verification [of script_wrong_password]
  from A url have "\<not> converges ?s 0"
    by blast
  moreover from B conv have "fst (verify_login_loop script_no_welcome 0)"
    by (auto intro: exI [of _ 0])
  moreover from C script_wrong_password_attempt
  have "\<not> fst (verify_login_loop script_wrong_password 0)
      \<and> last (snd (verify_login_loop script_wrong_password 0)) =
          Log ERROR ''Failed to verify login completion after maximum retries''"
    by blast
  ultimately show ?thesis
    using url' conv five by blast
qed

subsection \<open>Verification after the submit, in the discovery service\<close>

text \<open>
  C8. \<^verbatim>\<open>verify_login\<close> of the discovery service checks the URL once and never looks at the
  header again. On a page that still shows the sign-in button after the submit, at a URL
  that is not a login URL, it reports success and caches the session, where the flow of
  the clipping service makes its five attempts and fails.
\<close>

theorem verify_login_accepts_signed_out_page:
  "verify_reply (login example_verify_script) 0 = signed_out_header
   \<and> \<not> on_login_page (verify_url (login example_verify_script) 0)
   \<and> \<not> fst (handle_login_flow (login example_verify_script) (credentials example_config))
   \<and> verify_login (\<lambda>u. 0) example_verify_script example_config 1 [] =
      (True,
       [Log INFO ''Browser launched and page wrapped with AgentQL'',
        Log INFO ''Navigating to main URL: https://www.kroger.com/'',
        Goto ''https://www.kroger.com/'', WaitReady 500, Query STORE_INFO_QUERY,
        Log INFO ''Clicking initial sign in button'', Timeout 500,
        Click HeaderSignIn, WaitReady 500, Query INITIAL_MODAL_QUERY,
        Query LOGIN_OPTIONS_MODAL_QUERY, Log INFO ''Found login options modal'',
        Fill EmailBox (Some ''user@example.com''), Log INFO ''Entered email'',
        Timeout 500, Click PasswordOption, WaitReady 500,
        Log INFO ''Selected password login option'', Query PASSWORD_MODAL_QUERY,
        Log INFO ''Found password modal'',
        Fill PasswordBox (Some ''password123''), Log INFO ''Entered password'',
        Timeout 500, Click SubmitButton, WaitReady 500,
        Log INFO ''Submitted login form'', WaitReady 500,
        Log INFO ''Successfully navigated to: https://www.kroger.com/'',
        Log INFO
         ''Cached authenticated session for user 1 to: app/sessions/1/store_7_session.json''],
       [(''1'',
         [(''store_7_session.json'',
           JsonText (PDict [(''cookies'', PList []), (''origins'', PList [])]))])])"
  by code_simp


section \<open>Properties of the store identifier\<close>

lemma store_id_of_fallback:
  "config_id cfg = None \<or> config_id cfg = Some 0 \<Longrightarrow> store_id_of hash cfg = hash (base_url cfg)"
  by (auto simp: store_id_of_def)

lemma py_hash_run_1: "py_hash key_of_run_1 ''https://www.kroger.com/'' = - 3875449127054494850"
  by (simp add: py_hash_def key_of_run_1_def siphash13_def compress.simps single_round_def
      half_round_def rotate_def)

lemma py_hash_run_2: "py_hash key_of_run_2 ''https://www.kroger.com/'' = 2255441749044514865"
  by (simp add: py_hash_def key_of_run_2_def siphash13_def compress.simps single_round_def
      half_round_def rotate_def)

text \<open>
  C6. For a store with no id the identifier is the interpreter's hash of the base URL, and
  that hash is keyed by the run: under the keys of two runs the same base URL gives two
  identifiers, hence two names for the session file of the same user and store.
\<close>

theorem fallback_store_id_differs_between_runs:
  "config_id new_store = None
   \<and> base_url new_store = ''https://www.kroger.com/''
   \<and> store_id_of (py_hash key_of_run_1) new_store = - 3875449127054494850
   \<and> store_id_of (py_hash key_of_run_2) new_store = 2255441749044514865
   \<and> session_file (py_hash key_of_run_1) new_store 1 =
       (''1'', ''store_-3875449127054494850_session.json'')
   \<and> session_file (py_hash key_of_run_2) new_store 1 =
       (''1'', ''store_2255441749044514865_session.json'')"
proof -
  have c: "config_id new_store = None" and b: "base_url new_store = ''https://www.kroger.com/''"
    by (simp_all add: new_store_def example_config_def)
  have i1: "store_id_of (py_hash key_of_run_1) new_store = - 3875449127054494850"
    by (simp add: store_id_of_def c b py_hash_run_1)
  have i2: "store_id_of (py_hash key_of_run_2) new_store = 2255441749044514865"
    by (simp add: store_id_of_def c b py_hash_run_2)
  have s1: "get_store_session_path 1 (- 3875449127054494850) =
      (''1'', ''store_-3875449127054494850_session.json'')"
    by (simp add: get_store_session_path_def get_user_session_dir_def str_int_def
        str_nat.simps digit_char_def)
  have s2: "get_store_session_path 1 2255441749044514865 =
      (''1'', ''store_2255441749044514865_session.json'')"
    by (simp add: get_store_session_path_def get_user_session_dir_def str_int_def
        str_nat.simps digit_char_def)
  from c b i1 i2 s1 s2 show ?thesis
    by (simp add: session_file_def)
qed


section \<open>Properties of the store analysis\<close>

lemma logs_append: "logs (t @ u) = logs t @ logs u"
  by (simp add: logs_def)

lemma logs_Log: "logs [Log l m] = [(l, m)]"
  by (simp add: logs_def)

lemma last_logs:
  assumes "t \<noteq> []" and "last t = Log l m"
  shows "logs t \<noteq> [] \<and> last (logs t) = (l, m)"
proof -
  have "t = butlast t @ [Log l m]"
    using assms by (metis append_butlast_last_id)
  then have "logs t = logs (butlast t) @ [(l, m)]"
    by (metis logs_append logs_Log)
  then show ?thesis
    by simp
qed

lemma analyze_store_last_event:
  "fst (analyze_store hash urljoin script d) \<noteq> None \<Longrightarrow>
     snd (analyze_store hash urljoin script d) \<noteq> [] \<and>
     last (snd (analyze_store hash urljoin script d)) =
       Log INFO (''Created store config with credentials: '' @
                 credentials_str (discovery_credentials d))"
  unfolding analyze_store_def Let_def
  by (auto split: option.splits reply.splits)

text \<open>Every analysis that returns a configuration has logged the credentials it was given,
  as its last line.\<close>

theorem analyze_store_logs_credentials:
  "fst (analyze_store hash urljoin script d) \<noteq> None \<longrightarrow>
     logs (snd (analyze_store hash urljoin script d)) \<noteq> [] \<and>
     last (logs (snd (analyze_store hash urljoin script d))) =
       (INFO, ''Created store config with credentials: '' @
              ''username='' @ repr_optional (username (discovery_credentials d)) @
              '' email='' @ repr_optional (email (discovery_credentials d)) @
              '' password='' @ py_repr (password (discovery_credentials d)))"
proof
  assume "fst (analyze_store hash urljoin script d) \<noteq> None"
  from analyze_store_last_event [OF this]
  have "logs (snd (analyze_store hash urljoin script d)) \<noteq> [] \<and>
     last (logs (snd (analyze_store hash urljoin script d))) =
       (INFO, ''Created store config with credentials: '' @
              credentials_str (discovery_credentials d))"
    by (intro last_logs) simp_all
  then show "logs (snd (analyze_store hash urljoin script d)) \<noteq> [] \<and>
     last (logs (snd (analyze_store hash urljoin script d))) =
       (INFO, ''Created store config with credentials: '' @
              ''username='' @ repr_optional (username (discovery_credentials d)) @
              '' email='' @ repr_optional (email (discovery_credentials d)) @
              '' password='' @ py_repr (password (discovery_credentials d)))"
    by (simp add: credentials_str_def)
qed

lemma py_repr_example: "py_repr ''password123'' = CHR 0x27 # ''password123'' @ [CHR 0x27]"
  by code_simp

theorem analyze_store_logs_credentials_witness:
  "fst (analyze_store (\<lambda>u. 0) (\<lambda>b h. b @ h) example_store_page (example_discovery ''password123''))
     = Some \<lparr>config_id = None, name = ''Acme Grocery'', base_url = ''https://www.acme.com'',
             login_url = ''https://www.acme.com/login'',
             credentials = Some \<lparr>username = None, email = Some ''user@example.com'',
                                  password = ''password123''\<rparr>\<rparr>
   \<and> last (logs (snd (analyze_store (\<lambda>u. 0) (\<lambda>b h. b @ h) example_store_page
                        (example_discovery ''password123'')))) =
       (INFO, ''Created store config with credentials: username=None email='' @
              CHR 0x27 # ''user@example.com'' @ CHR 0x27 # '' password='' @
              CHR 0x27 # ''password123'' @ [CHR 0x27])"
proof -
  have r: "fst (analyze_store (\<lambda>u. 0) (\<lambda>b h. b @ h) example_store_page
               (example_discovery ''password123''))
     = Some \<lparr>config_id = None, name = ''Acme Grocery'', base_url = ''https://www.acme.com'',
             login_url = ''https://www.acme.com/login'',
             credentials = Some \<lparr>username = None, email = Some ''user@example.com'',
                                  password = ''password123''\<rparr>\<rparr>"
    by code_simp
  have e: "repr_optional (email (discovery_credentials (example_discovery ''password123''))) =
      CHR 0x27 # ''user@example.com'' @ [CHR 0x27]"
    and u: "repr_optional (username (discovery_credentials (example_discovery ''password123''))) =
      ''None''"
    and p: "py_repr (password (discovery_credentials (example_discovery ''password123''))) =
      CHR 0x27 # ''password123'' @ [CHR 0x27]"
    by code_simp+
  from r analyze_store_logs_credentials
    [of "\<lambda>u. 0" "\<lambda>b h. b @ h" example_store_page "example_discovery ''password123''"]
  have "last (logs (snd (analyze_store (\<lambda>u. 0) (\<lambda>b h. b @ h) example_store_page
                        (example_discovery ''password123'')))) =
       (INFO, ''Created store config with credentials: '' @
              ''username='' @ repr_optional (username (discovery_credentials (example_discovery ''password123''))) @
              '' email='' @ repr_optional (email (discovery_credentials (example_discovery ''password123''))) @
              '' password='' @ py_repr (password (discovery_credentials (example_discovery ''password123''))))"
    by simp
  with r show ?thesis
    unfolding e u p by simp
qed

text \<open>
  C1. Two requests to analyse the same page that differ in the password alone leave two
  different logs: the last line of each is the text of the credentials, password
  included.
\<close>

theorem analyze_store_log_depends_on_password:
  "logs (snd (analyze_store (\<lambda>u. 0) (\<lambda>b h. b @ h) example_store_page
                (example_discovery ''password123''))) =
     [(INFO, ''Browser launched and page wrapped with AgentQL''),
      (INFO, ''Attempting to navigate to URL: https://www.acme.com/''),
      (INFO, ''Page loaded successfully''),
      (INFO, ''Found store elements''),
      (INFO, ''Final login URL: https://www.acme.com/login''),
      (INFO, ''Created store config with credentials: username=None email='' @
             CHR 0x27 # ''user@example.com'' @ CHR 0x27 # '' password='' @
             CHR 0x27 # ''password123'' @ [CHR 0x27])]
   \<and> logs (snd (analyze_store (\<lambda>u. 0) (\<lambda>b h. b @ h) example_store_page
                (example_discovery ''hunter2''))) =
     [(INFO, ''Browser launched and page wrapped with AgentQL''),
      (INFO, ''Attempting to navigate to URL: https://www.acme.com/''),
      (INFO, ''Page loaded successfully''),
      (INFO, ''Found store elements''),
      (INFO, ''Final login URL: https://www.acme.com/login''),
      (INFO, ''Created store config with credentials: username=None email='' @
             CHR 0x27 # ''user@example.com'' @ CHR 0x27 # '' password='' @
             CHR 0x27 # ''hunter2'' @ [CHR 0x27])]
   \<and> logs (snd (analyze_store (\<lambda>u. 0) (\<lambda>b h. b @ h) example_store_page
                (example_discovery ''password123'')))
     \<noteq> logs (snd (analyze_store (\<lambda>u. 0) (\<lambda>b h. b @ h) example_store_page
                (example_discovery ''hunter2'')))"
  by code_simp


section \<open>Properties of a clip run\<close>

subsection \<open>The offers recorded are the offers clipped and verified\<close>

lemma clip_one_fst:
  "fst (clip_one reply c) =
     (case clipped_and_verified reply c of None \<Rightarrow> [] | Some ofr \<Rightarrow> [ofr])"
  by (auto simp: clip_one_def clipped_and_verified_def Let_def
      split: option.splits reply.splits sum.splits bool.splits)

lemma process_coupons_fst: "fst (process_coupons replies j cs) = verified_from replies j cs"
  by (induction cs arbitrary: j) (simp_all add: clip_one_fst Let_def split: option.splits)

lemma clip_pages_fst:
  "map_option fst (clip_pages fuel s i acc) = map_option ((@) acc) (verified_offers fuel s i)"
proof (induction fuel arbitrary: i acc)
  case 0
  then show ?case by simp
next
  case (Suc fuel)
  show ?case
  proof (cases "has_more s i")
    case False
    then show ?thesis
      by (auto simp: has_more_def page_coupons_def process_coupons_fst clip_one_fst Let_def
          split: reply.splits option.splits list.splits)
  next
    case True
    then obtain p sec cs pg b where
      l: "listing s i = Returns (Some p)" "coupon_section p = Some sec"
        "available_coupons sec = Some cs" "cs \<noteq> []" "pagination sec = Some pg"
        "load_more_btn pg = Some b"
      by (auto simp: has_more_def page_coupons_def split: reply.splits option.splits list.splits)
    then have pc: "page_coupons s i = cs"
      by (simp add: page_coupons_def)
    let ?here = "verified_from (recheck s i) 0 cs"
    have IH: "map_option fst (clip_pages fuel s (Suc i) (acc @ ?here)) =
        map_option ((@) (acc @ ?here)) (verified_offers fuel s (Suc i))"
      by (rule Suc.IH)
    show ?thesis
    proof (cases "verified_offers fuel s (Suc i)")
      case None
      with IH have "clip_pages fuel s (Suc i) (acc @ ?here) = None"
        by simp
      with None True l pc show ?thesis
        by (auto simp add: process_coupons_fst Let_def split: list.splits
            simp del: process_coupons.simps verified_from.simps)
    next
      case (Some later)
      with IH obtain rest where
        "clip_pages fuel s (Suc i) (acc @ ?here) = Some rest" "fst rest = acc @ ?here @ later"
        by auto
      with Some True l pc show ?thesis
        by (auto simp add: process_coupons_fst Let_def split: list.splits
            simp del: process_coupons.simps verified_from.simps)
    qed
  qed
qed

lemma clip_all_fst: "clip_all fuel s = Some c \<Longrightarrow> verified_offers fuel s 0 = Some (fst c)"
  using clip_pages_fst [of fuel s 0 "[]"]
  by (cases "verified_offers fuel s 0") (auto simp: clip_all_def split: option.splits)

subsection \<open>The flags of the result\<close>

lemma navigate_and_clip_result:
  assumes "navigate_and_clip fuel s result t fs = Some (res, t', fs')"
    and "\<not> success result" and "clipped_coupons result = []" and "error result = None"
  shows "(success res \<longleftrightarrow> clipped_coupons res \<noteq> []) \<and>
         (if fst (navigate_to_coupons s)
          then verified_offers fuel s 0 = Some (clipped_coupons res) \<and> error res = None
          else error res = Some ''Failed to navigate to coupons section'' \<and>
               clipped_coupons res = [])"
  using assms
  by (auto simp: navigate_and_clip_def Let_def split: if_splits option.splits
      dest: clip_all_fst)

lemma navigate_and_clip_fresh:
  assumes "navigate_and_clip fuel s
             \<lparr>success = False, store = n, clipped_coupons = [], error = None\<rparr> t fs =
           Some (res, t', fs')"
  shows "(success res \<longleftrightarrow> clipped_coupons res \<noteq> []) \<and>
         (if fst (navigate_to_coupons s)
          then verified_offers fuel s 0 = Some (clipped_coupons res) \<and> error res = None
          else error res = Some ''Failed to navigate to coupons section'' \<and>
               clipped_coupons res = [])"
  using navigate_and_clip_result [OF assms] by simp

lemma try_clip_result:
  assumes "try_clip fuel hash s cfg user_id fs = Some (res, t, fs')"
  shows "success res \<longleftrightarrow> clipped_coupons res \<noteq> []"
    and "navigate_error s = None \<Longrightarrow>
         cached_session_valid hash s cfg user_id fs \<or>
           login_passes s cfg \<and> raised_text (cache_state s) = None \<Longrightarrow>
         fst (navigate_to_coupons s) \<Longrightarrow>
         verified_offers fuel s 0 = Some (clipped_coupons res) \<and> error res = None"
    and "error res \<noteq> None \<Longrightarrow>
         error res = Some ''Failed to login'' \<and> \<not> login_passes s cfg \<or>
         error res = Some ''Failed to navigate to coupons section'' \<and>
           \<not> fst (navigate_to_coupons s) \<or>
         error res = navigate_error s \<or>
         error res = raised_text (cache_state s)"
proof -
  let ?result = "\<lparr>success = False, store = name cfg, clipped_coupons = [], error = None\<rparr>"
  consider (goto) msg where "navigate_error s = Some msg" "res = ?result\<lparr>error := Some msg\<rparr>"
    | (login) "navigate_error s = None" "\<not> cached_session_valid hash s cfg user_id fs"
        "\<not> login_passes s cfg" "res = ?result\<lparr>error := Some ''Failed to login''\<rparr>"
    | (cache) msg where "navigate_error s = None" "\<not> cached_session_valid hash s cfg user_id fs"
        "login_passes s cfg" "cache_state s = Raises msg" "res = ?result\<lparr>error := Some msg\<rparr>"
    | (clip) t0 fs0 where "navigate_error s = None"
        "cached_session_valid hash s cfg user_id fs \<or>
           login_passes s cfg \<and> raised_text (cache_state s) = None"
        "navigate_and_clip fuel s ?result t0 fs0 = Some (res, t, fs')"
    using assms
    by (auto simp: try_clip_def Let_def cached_session_valid_def login_passes_def raised_text_def
        split: option.splits if_splits reply.splits)
  note cases = this
  show "success res \<longleftrightarrow> clipped_coupons res \<noteq> []"
    using cases by cases (auto dest: navigate_and_clip_fresh)
  show "verified_offers fuel s 0 = Some (clipped_coupons res) \<and> error res = None"
    if "navigate_error s = None"
      "cached_session_valid hash s cfg user_id fs \<or>
         login_passes s cfg \<and> raised_text (cache_state s) = None"
      "fst (navigate_to_coupons s)"
    using cases that
    by cases (auto simp: raised_text_def dest: navigate_and_clip_fresh)
  show "error res = Some ''Failed to login'' \<and> \<not> login_passes s cfg \<or>
        error res = Some ''Failed to navigate to coupons section'' \<and>
          \<not> fst (navigate_to_coupons s) \<or>
        error res = navigate_error s \<or>
        error res = raised_text (cache_state s)"
    if "error res \<noteq> None"
    using cases that
    by cases (auto simp: raised_text_def dest!: navigate_and_clip_fresh split: if_splits)
qed

subsection \<open>A run over finitely many pages returns\<close>

lemma verified_offers_returns:
  "\<not> has_more s (i + k) \<Longrightarrow> k < fuel \<Longrightarrow> verified_offers fuel s i \<noteq> None"
proof (induction fuel arbitrary: i k)
  case 0
  then show ?case by simp
next
  case (Suc fuel)
  show ?case
  proof (cases "has_more s i")
    case False
    then show ?thesis by (simp add: Let_def)
  next
    case True
    with Suc.prems obtain k' where k: "k = Suc k'"
      by (cases k) auto
    with Suc.prems have "\<not> has_more s (Suc i + k')" "k' < fuel"
      by simp_all
    then have "verified_offers fuel s (Suc i) \<noteq> None"
      by (rule Suc.IH)
    with True show ?thesis
      by (auto simp: Let_def)
  qed
qed

lemma clip_pages_returns:
  assumes "\<not> has_more s (i + k)" and "k < fuel"
  shows "clip_pages fuel s i acc \<noteq> None"
proof
  assume "clip_pages fuel s i acc = None"
  with clip_pages_fst [of fuel s i acc] have "verified_offers fuel s i = None"
    by simp
  with verified_offers_returns [OF assms] show False
    by simp
qed

lemma try_clip_returns:
  assumes "\<not> has_more s k" and "k < fuel"
  shows "try_clip fuel hash s cfg user_id fs \<noteq> None"
proof -
  from assms have "clip_pages fuel s 0 [] \<noteq> None"
    by (intro clip_pages_returns [where k = k]) simp_all
  then have "clip_all fuel s \<noteq> None"
    by (auto simp: clip_all_def split: option.splits)
  then have "navigate_and_clip fuel s result t fs0 \<noteq> None" for result t fs0
    by (auto simp: navigate_and_clip_def Let_def split: option.splits)
  then show ?thesis
    by (auto simp: try_clip_def Let_def split: option.splits reply.splits)
qed

text \<open>
  The clip loop of \<^verbatim>\<open>_clip_coupons\<close> (coupon_service.py, lines 276 to 371) goes on for as
  long as the page lists coupons and shows a button to load more. A run of
  \<^verbatim>\<open>clip_coupons\<close> (lines 373 to 499) returns as soon as some pass \<open>k\<close> finds no more to
  load: with more fuel than \<open>k\<close> the model returns, an exception when a browser that
  had started fails to close and a result dictionary otherwise.
\<close>

theorem clip_coupons_returns:
  assumes "\<not> has_more s k" and "k < fuel"
  shows "\<exists>r. clip_coupons fuel hash s cfg user_id fs = Some r \<and>
             (isl (fst r) \<longleftrightarrow> launch_error s = None \<and> browser_close_error s \<noteq> None)"
  using try_clip_returns [OF assms, of hash cfg user_id fs]
  by (auto simp: clip_coupons_def Let_def split: option.splits)

theorem clip_coupons_returns_witness:
  "\<not> has_more five_offers_script 0 \<and> (0::nat) < 1 \<and>
   clip_coupons 1 (\<lambda>u. 0) five_offers_script example_config 1 [] \<noteq> None"
proof -
  have more: "\<not> has_more five_offers_script 0"
    by code_simp
  from clip_coupons_returns [OF more, of 1 "\<lambda>u. 0" example_config 1 "[]"]
  have "clip_coupons 1 (\<lambda>u. 0) five_offers_script example_config 1 [] \<noteq> None"
    by auto
  with more show ?thesis
    by simp
qed

subsection \<open>The result of a clip run\<close>

text \<open>
  C9, as the claim words it, fails on its last part: the top-level error is also set by
  the handlers of lines 484 to 486 and 491 to 493. When the browser does not start, the
  run returns the error's text although no login and no navigation has failed; the page
  of the example would pass both.
\<close>

theorem clip_coupons_error_without_failed_login_or_navigation:
  "clip_coupons 1 (\<lambda>u. 0) no_browser_script example_config 1 [] =
     Some (Inr \<lparr>success = False, store = ''Kroger'', clipped_coupons = [],
                error = Some ''Executable does not exist''\<rparr>,
           [Log INFO ''Starting coupon clipping process for store: Kroger'',
            Log ERROR ''Failed to complete coupon clipping process: Executable does not exist''],
           [])
   \<and> login_passes no_browser_script example_config
   \<and> fst (navigate_to_coupons no_browser_script)"
  by code_simp

text \<open>
  C9, amended. For every run of \<^verbatim>\<open>clip_coupons\<close> (coupon_service.py, lines 373 to 499, with
  the clip loop of lines 276 to 371) that returns a result: the success flag is true if
  and only if the clipped list is not empty. When the run passes login and navigation,
  the clipped list is exactly the offers clipped and verified, in the order of the page,
  the offers that fail to clip or to verify being dropped, and the top-level error is
  set by nothing but an exception of closing the browser context. A top-level error that
  is set is \<^verbatim>\<open>Failed to login\<close> after a login that failed,
  \<^verbatim>\<open>Failed to navigate to coupons section\<close> after a navigation that failed, or the text
  of an exception: of the start of the browser, of opening the store page, of caching the
  new session, or of closing the context.
\<close>

theorem clip_coupons_result:
  assumes "clip_coupons fuel hash s cfg user_id fs = Some (Inr res, t, fs')"
  shows "(success res \<longleftrightarrow> clipped_coupons res \<noteq> []) \<and>
         (passes_login_and_navigation hash s cfg user_id fs \<longrightarrow>
            verified_offers fuel s 0 = Some (clipped_coupons res) \<and>
            error res = context_close_error s) \<and>
         (error res \<noteq> None \<longrightarrow>
            error res = Some ''Failed to login'' \<and> \<not> login_passes s cfg \<or>
            error res = Some ''Failed to navigate to coupons section'' \<and>
              \<not> fst (navigate_to_coupons s) \<or>
            error res = launch_error s \<or>
            error res = navigate_error s \<or>
            error res = raised_text (cache_state s) \<or>
            error res = context_close_error s)"
proof (cases "launch_error s")
  case (Some msg)
  with assms have
    "res = \<lparr>success = False, store = name cfg, clipped_coupons = [], error = Some msg\<rparr>"
    by (simp add: clip_coupons_def)
  with Some show ?thesis
    by (simp add: passes_login_and_navigation_def)
next
  case None
  with assms obtain r t1 fs1 where
    run: "try_clip fuel hash s cfg user_id fs = Some (r, t1, fs1)" and
    res: "res = (case context_close_error s of None \<Rightarrow> r | Some msg \<Rightarrow> r\<lparr>error := Some msg\<rparr>)"
    by (auto simp: clip_coupons_def Let_def split: option.splits)
  note facts = try_clip_result [OF run]
  have flag: "success res \<longleftrightarrow> clipped_coupons res \<noteq> []"
    using facts(1) res by (simp split: option.splits)
  have passed: "verified_offers fuel s 0 = Some (clipped_coupons res) \<and>
      error res = context_close_error s"
    if "passes_login_and_navigation hash s cfg user_id fs"
  proof -
    from that have "verified_offers fuel s 0 = Some (clipped_coupons r) \<and> error r = None"
      by (intro facts(2)) (simp_all add: passes_login_and_navigation_def)
    with res show ?thesis
      by (simp split: option.splits)
  qed
  have set_by: "error res = Some ''Failed to login'' \<and> \<not> login_passes s cfg \<or>
      error res = Some ''Failed to navigate to coupons section'' \<and>
        \<not> fst (navigate_to_coupons s) \<or>
      error res = launch_error s \<or>
      error res = navigate_error s \<or>
      error res = raised_text (cache_state s) \<or>
      error res = context_close_error s"
    if "error res \<noteq> None"
  proof (cases "context_close_error s")
    case (Some msg)
    with res show ?thesis
      by simp
  next
    case None
    with res that have "error r \<noteq> None" "res = r"
      by simp_all
    with facts(3) show ?thesis
      by blast
  qed
  from flag passed set_by show ?thesis
    by blast
qed

text \<open>
  The run of the claim: five offers, of which B and D fail verification. The run passes
  login and navigation and returns success with exactly the offers A, C and E and no
  top-level error.
\<close>

theorem clip_coupons_result_witness:
  "passes_login_and_navigation (\<lambda>u. 0) five_offers_script example_config 1 []
   \<and> map_option fst (clip_coupons 1 (\<lambda>u. 0) five_offers_script example_config 1 []) =
       Some (Inr \<lparr>success = True, store = ''Kroger'',
                  clipped_coupons = [example_offer ''A'', example_offer ''C'', example_offer ''E''],
                  error = None\<rparr>)
   \<and> verified_offers 1 five_offers_script 0 =
       Some [example_offer ''A'', example_offer ''C'', example_offer ''E'']"
proof -
  let ?res = "\<lparr>success = True, store = ''Kroger'',
      clipped_coupons = [example_offer ''A'', example_offer ''C'', example_offer ''E''],
      error = None\<rparr>"
  let ?run = "clip_coupons 1 (\<lambda>u. 0) five_offers_script example_config 1 []"
  have passes: "passes_login_and_navigation (\<lambda>u. 0) five_offers_script example_config 1 []"
    by code_simp
  have run: "map_option fst ?run = Some (Inr ?res)"
    by code_simp
  then obtain t fs' where "?run = Some (Inr ?res, t, fs')"
    by (cases ?run) auto
  from clip_coupons_result [OF this] passes
  have "verified_offers 1 five_offers_script 0 = Some (clipped_coupons ?res)"
    by blast
  with passes run show ?thesis
    by simp
qed


end
